theory Spec2Isabelle
  imports
    Main
    "HOL-Library.Char_ord"
    "HOL-Library.List_Lexorder"
    "HOL-Library.Sublist"
    "HOL-Library.Multiset"
begin

section \<open>Platform primitives used by CommandHandler.ts\<close>

text \<open>
  \<^verbatim>\<open>Array.prototype.sort(compareFn)\<close> is a stable sort: with a consistent comparison
  function the result is the one stable arrangement in which no element compares greater
  than a later one. It is embedded as the insertion sort that places an element in front
  of the first element it does not compare greater than, run from the right end of the
  array, which yields exactly that arrangement.
\<close>

fun insertBy :: "('a \<Rightarrow> 'a \<Rightarrow> int) \<Rightarrow> 'a \<Rightarrow> 'a list \<Rightarrow> 'a list" where
  "insertBy cmp x [] = [x]"
| "insertBy cmp x (y # ys) = (if cmp x y \<le> 0 then x # y # ys else y # insertBy cmp x ys)"

definition arraySort :: "('a \<Rightarrow> 'a \<Rightarrow> int) \<Rightarrow> 'a list \<Rightarrow> 'a list" where
  "arraySort cmp xs = foldr (insertBy cmp) xs []"

text \<open>
  A comparison function is consistent when the sign of \<open>cmp a b\<close> is the opposite of the
  sign of \<open>cmp b a\<close> and "not greater" is transitive.
\<close>

definition consistentComparator :: "('a \<Rightarrow> 'a \<Rightarrow> int) \<Rightarrow> bool" where
  "consistentComparator cmp =
     ((\<forall>a b. (cmp a b < 0) = (0 < cmp b a)) \<and>
      (\<forall>a b c. cmp a b \<le> 0 \<longrightarrow> cmp b c \<le> 0 \<longrightarrow> cmp a c \<le> 0))"

text \<open>
  \<^verbatim>\<open>sort()\<close> without a comparison function orders strings by their code units; on the
  strings of this development (ASCII) that is the lexicographic order of the characters.
\<close>

definition defaultCompare :: "string \<Rightarrow> string \<Rightarrow> int" where
  "defaultCompare a b = (if a < b then - 1 else if b < a then 1 else 0)"

text \<open>\<^verbatim>\<open>String.prototype.startsWith\<close>, \<^verbatim>\<open>endsWith\<close> and \<^verbatim>\<open>Array.prototype.join\<close>.\<close>

definition startsWith :: "string \<Rightarrow> string \<Rightarrow> bool" where
  "startsWith s p = (take (length p) s = p)"

definition endsWith :: "string \<Rightarrow> string \<Rightarrow> bool" where
  "endsWith s p = (length p \<le> length s \<and> drop (length s - length p) s = p)"

fun join :: "string list \<Rightarrow> string \<Rightarrow> string" where
  "join [] sep = []"
| "join [x] sep = x"
| "join (x # y # ys) sep = x @ sep @ join (y # ys) sep"

text \<open>
  A JavaScript \<^verbatim>\<open>Set\<close> keeps its elements in insertion order and \<^verbatim>\<open>add\<close> ignores an
  element that is already present; \<^verbatim>\<open>Array.from\<close> lists the elements in that order.
\<close>

definition setAdd :: "'a \<Rightarrow> 'a list \<Rightarrow> 'a list" where
  "setAdd x s = (if x \<in> set s then s else s @ [x])"


section \<open>The batch checker\<close>

subsection \<open>Data\<close>

record uri =
  scheme :: string
  fsPath :: string

record checkResult =
  success :: bool
  errorMessage :: "string option"

text \<open>The \<^verbatim>\<open>ltex.enabled\<close> setting: a boolean or a list of code language identifiers.\<close>

datatype enabledSetting = EnabledBool bool | EnabledList "string list"

text \<open>The error messages shown by \<^verbatim>\<open>Code.window.showErrorMessage\<close>.\<close>

datatype message =
    LtexNotInitialized
  | CouldNotCheckDocument string "string option"
  | CouldNotCheckDocumentsAsNoFoldersWereOpened
  | CouldNotCheckDocumentsAsNoDocumentsWereFound

text \<open>
  What a run of the command reads from its surroundings. The language client answers a
  check request; its answer may depend on the requests it has received before.
  \<open>isCancellationRequested k\<close> is the value of the cancellation token at the \<open>k\<close>-th
  place where the command reads it: \<open>0\<close> is the read at the start of the discovery phase
  (line 127), \<open>Suc i\<close> the read in front of document \<open>i\<close> (line 144). \<open>localeCompare\<close> is
  the platform's \<^verbatim>\<open>String.prototype.localeCompare\<close>.
\<close>

record workspace =
  languageClient :: "(uri list \<Rightarrow> uri \<Rightarrow> checkResult) option"
  enabled :: enabledSetting
  findFiles :: "string \<Rightarrow> uri list"
  workspaceFolders :: "string list option"
  isCancellationRequested :: "nat \<Rightarrow> bool"
  localeCompare :: "string \<Rightarrow> string \<Rightarrow> int"

text \<open>
  What a run does to its surroundings: the check requests sent to the language client, in
  order, and the error messages shown.
\<close>

record run =
  requests :: "uri list"
  shown :: "message list"

subsection \<open>getEnabledFileExtensions (lines 162-194)\<close>

text \<open>One iteration of the loop of lines 175-191: the \<^verbatim>\<open>switch\<close> on the language identifier.\<close>

definition addExtension :: "string list \<Rightarrow> string \<Rightarrow> string list" where
  "addExtension enabledFileExtensions codeLanguageId =
     (if codeLanguageId = ''bibtex'' then setAdd ''bib'' enabledFileExtensions
      else if codeLanguageId = ''latex'' \<or> codeLanguageId = ''rsweave''
        then setAdd ''tex'' enabledFileExtensions
      else if codeLanguageId = ''markdown'' then setAdd ''md'' enabledFileExtensions
      else enabledFileExtensions)"

definition getEnabledFileExtensions :: "enabledSetting \<Rightarrow> string list" where
  "getEnabledFileExtensions en =
     (let enabledCodeLanguageIds =
            (case en of
               EnabledBool b \<Rightarrow>
                 (if b then [''bibtex'', ''latex'', ''markdown'', ''rsweave''] else [])
             | EnabledList ids \<Rightarrow> ids)
      in arraySort defaultCompare (foldl addExtension [] enabledCodeLanguageIds))"

text \<open>
  The mapping from a language identifier to its extensions in the words of the
  specification (\<open>bibtex\<rightarrow>bib\<close>, \<open>latex|rsweave\<rightarrow>tex\<close>, \<open>markdown\<rightarrow>md\<close>, anything else
  contributes nothing); the code is compared with it.
\<close>

definition specLanguageExtensions :: "string \<Rightarrow> string set" where
  "specLanguageExtensions codeLanguageId =
     (if codeLanguageId = ''bibtex'' then {''bib''}
      else if codeLanguageId = ''latex'' then {''tex''}
      else if codeLanguageId = ''rsweave'' then {''tex''}
      else if codeLanguageId = ''markdown'' then {''md''}
      else {})"

subsection \<open>checkDocument (lines 69-89)\<close>

definition checkDocument :: "workspace \<Rightarrow> uri \<Rightarrow> run \<Rightarrow> bool \<times> run" where
  "checkDocument env u st =
     (case languageClient env of
        None \<Rightarrow> (False, st\<lparr>shown := shown st @ [LtexNotInitialized]\<rparr>)
      | Some sendRequest \<Rightarrow>
          (let result = sendRequest (requests st) u;
               st' = st\<lparr>requests := requests st @ [u]\<rparr>
           in if success result then (True, st')
              else (False, st'\<lparr>shown := shown st' @
                      [CouldNotCheckDocument (fsPath u) (errorMessage result)]\<rparr>)))"

subsection \<open>checkAllDocumentsInWorkspace (lines 108-160)\<close>

text \<open>
  The loop of lines 141-147 over the documents that remain, \<open>i\<close> being the index of the
  first of them. \<open>Some r\<close> is a \<^verbatim>\<open>return\<close> of \<open>r\<close> from inside the loop, \<open>None\<close> the normal
  end of the loop.
\<close>

fun checkLoop :: "workspace \<Rightarrow> nat \<Rightarrow> uri list \<Rightarrow> run \<Rightarrow> bool option \<times> run" where
  "checkLoop env i [] st = (None, st)"
| "checkLoop env i (u # us) st =
     (if isCancellationRequested env (Suc i) then (Some True, st)
      else (case checkDocument env u st of
              (ok, st') \<Rightarrow> if \<not> ok then (Some False, st') else checkLoop env (Suc i) us st'))"

text \<open>The glob pattern of line 134 and the sorted result of lines 133-135.\<close>

definition fileGlob :: "workspace \<Rightarrow> string" where
  "fileGlob env = ''**/*.{'' @ join (getEnabledFileExtensions (enabled env)) '','' @ ''}''"

definition sortedUris :: "workspace \<Rightarrow> uri list" where
  "sortedUris env =
     arraySort (\<lambda>lhs rhs. localeCompare env (fsPath lhs) (fsPath rhs))
       (findFiles env (fileGlob env))"

definition checkAllDocumentsInWorkspace :: "workspace \<Rightarrow> bool \<times> run" where
  "checkAllDocumentsInWorkspace env =
     (let st0 = \<lparr>requests = [], shown = []\<rparr> in
      if languageClient env = None then (False, st0\<lparr>shown := [LtexNotInitialized]\<rparr>)
      else if isCancellationRequested env 0 then (True, st0)
      else if length (getEnabledFileExtensions (enabled env)) = 0 then (True, st0)
      else
        (let uris = sortedUris env; n = length uris in
         case checkLoop env 0 uris st0 of
           (Some r, st) \<Rightarrow> (r, st)
         | (None, st) \<Rightarrow>
             if n > 0 then (True, st)
             else (False, st\<lparr>shown := shown st @
                     [if workspaceFolders env = None
                      then CouldNotCheckDocumentsAsNoFoldersWereOpened
                      else CouldNotCheckDocumentsAsNoDocumentsWereFound]\<rparr>)))"


subsection \<open>Runs without interference\<close>

text \<open>
  A run is undisturbed when the language client exists, some file extension is enabled,
  the cancellation token is never set where the command reads it, and every check that
  the command requests succeeds.
\<close>

definition undisturbed :: "workspace \<Rightarrow> (uri list \<Rightarrow> uri \<Rightarrow> checkResult) \<Rightarrow> bool" where
  "undisturbed env client =
     (languageClient env = Some client \<and>
      getEnabledFileExtensions (enabled env) \<noteq> [] \<and>
      \<not> isCancellationRequested env 0 \<and>
      (\<forall>j<length (sortedUris env).
          \<not> isCancellationRequested env (Suc j) \<and>
          success (client (take j (sortedUris env)) (sortedUris env ! j))))"


subsection \<open>Example workspaces\<close>

text \<open>
  A workspace with all languages enabled, in which the check of the document with one
  given path fails and every other check succeeds. Paths are compared by code units.
\<close>

definition exampleUri :: "string \<Rightarrow> uri" where
  "exampleUri p = \<lparr>scheme = ''file'', fsPath = p\<rparr>"


definition exampleClient :: "string \<Rightarrow> uri list \<Rightarrow> uri \<Rightarrow> checkResult" where
  "exampleClient failing history u =
     (if fsPath u = failing then \<lparr>success = False, errorMessage = Some ''unreadable''\<rparr>
      else \<lparr>success = True, errorMessage = None\<rparr>)"


definition exampleWorkspace :: "string \<Rightarrow> uri list \<Rightarrow> (nat \<Rightarrow> bool) \<Rightarrow> workspace" where
  "exampleWorkspace failing found cancelled =
     \<lparr>languageClient = Some (exampleClient failing),
      enabled = EnabledBool True,
      findFiles = (\<lambda>glob. if glob = ''**/*.{bib,md,tex}'' then found else []),
      workspaceFolders = Some [''/project''],
      isCancellationRequested = cancelled,
      localeCompare = defaultCompare\<rparr>"


definition secondOfThreeFails :: workspace where
  "secondOfThreeFails =
     exampleWorkspace ''b.tex'' [exampleUri ''b.tex'', exampleUri ''a.tex'', exampleUri ''c.tex'']
       (\<lambda>k. False)"


definition threeDocuments :: workspace where
  "threeDocuments =
     exampleWorkspace ''none'' [exampleUri ''b.tex'', exampleUri ''a.tex'', exampleUri ''c.tex'']
       (\<lambda>k. False)"


definition cancelledAfterEmptyDiscovery :: workspace where
  "cancelledAfterEmptyDiscovery = exampleWorkspace ''none'' [] (\<lambda>k. 0 < k)"


definition cancelledAfterDiscovery :: workspace where
  "cancelledAfterDiscovery =
     exampleWorkspace ''none'' [exampleUri ''b.tex'', exampleUri ''a.tex'', exampleUri ''c.tex'']
       (\<lambda>k. 0 < k)"

definition cancelledBeforeSecond :: workspace where
  "cancelledBeforeSecond =
     exampleWorkspace ''none'' [exampleUri ''b.tex'', exampleUri ''a.tex'', exampleUri ''c.tex'']
       (\<lambda>k. 2 \<le> k)"

definition notInitialized :: workspace where
  "notInitialized = (cancelledAfterDiscovery\<lparr>languageClient := None\<rparr>)"


section \<open>The setting resolver and merger\<close>

subsection \<open>Data\<close>

text \<open>\<^verbatim>\<open>Code.ConfigurationTarget\<close>.\<close>

datatype configurationTarget = Global | Workspace | WorkspaceFolder

text \<open>
  \<^verbatim>\<open>LanguageSpecificSettingValue\<close> (lines 20-22), as a stored object: a language is mapped
  to its list of entries. The \<open>entries\<close> argument of the commands is iterated over by
  \<^verbatim>\<open>for (const language in entries)\<close>, so it is given as the list of its own properties
  in iteration order.
\<close>

type_synonym languageSpecificSettingValue = "string \<rightharpoonup> string list"

type_synonym languageEntries = "(string \<times> string list) list"

text \<open>The two calls of \<^verbatim>\<open>Logger.error\<close>: the invalid value, or the setting name and the cause.\<close>

datatype logEntry =
    InvalidValueForConfigurationTarget string
  | CouldNotSetConfiguration string string

text \<open>
  What the commands read from the editor and from the external file manager.
  \<open>configurationTargetSetting u key\<close> is \<^verbatim>\<open>getConfiguration('ltex.configurationTarget', u).get(key)\<close>.
  \<open>getFirstExternalFilePath\<close> is the method of that name of \<^verbatim>\<open>ExternalFileManager\<close>, whose
  source is not at hand: it is a parameter. \<open>updateRejection name target\<close> is the cause with
  which the editor rejects \<^verbatim>\<open>update(name, value, target)\<close>, or \<open>None\<close> when it accepts it.
\<close>

record editor =
  configurationTargetSetting :: "uri \<Rightarrow> string \<Rightarrow> string option"
  getFirstExternalFilePath ::
    "uri \<Rightarrow> string \<Rightarrow> configurationTarget \<Rightarrow> string \<Rightarrow> string option"
  updateRejection :: "string \<Rightarrow> configurationTarget \<Rightarrow> string option"

text \<open>
  What the commands change. \<open>settings target name\<close> is the value of \<^verbatim>\<open>ltex.<name>\<close> stored at
  one configuration target, as seen from the document of the call; \<open>files path\<close> is the
  list of entries of an external file. \<open>updateCalls\<close> and \<open>appendCalls\<close> list the calls of
  \<^verbatim>\<open>update\<close> and \<^verbatim>\<open>appendToFile\<close> that were made, \<open>logged\<close> the errors logged.
\<close>

record store =
  settings :: "configurationTarget \<Rightarrow> string \<Rightarrow> languageSpecificSettingValue option"
  files :: "string \<Rightarrow> string list"
  updateCalls :: "(string \<times> languageSpecificSettingValue \<times> configurationTarget) list"
  appendCalls :: "(string \<times> string \<times> string list) list"
  logged :: "logEntry list"

subsection \<open>Collaborators\<close>

text \<open>
  \<^verbatim>\<open>getConfiguration('ltex', uri).get(settingName, {})\<close>: the editor returns the effective
  value of the setting, which for an object is the merge of the values stored at the
  global, the workspace and the workspace folder target, a more specific target
  overriding a less specific one key by key, and the default \<^verbatim>\<open>{}\<close> when none is stored.
\<close>

definition storedValue :: "store \<Rightarrow> configurationTarget \<Rightarrow> string \<Rightarrow> languageSpecificSettingValue" where
  "storedValue st target name = (case settings st target name of None \<Rightarrow> Map.empty | Some v \<Rightarrow> v)"

definition getConfiguration :: "store \<Rightarrow> string \<Rightarrow> languageSpecificSettingValue" where
  "getConfiguration st name =
     storedValue st Global name ++ storedValue st Workspace name ++ storedValue st WorkspaceFolder name"

text \<open>
  Modelled from the spec: \<^verbatim>\<open>WorkspaceConfigurationRequestHandler.cleanUpWorkspaceSpecificStringArray\<close>,
  whose source is not at hand. The specification calls it the shared normalization
  routine: it removes duplicates and puts the entries in a deterministic order, ascending
  on the specification's example.
\<close>

definition cleanUpWorkspaceSpecificStringArray :: "string list \<Rightarrow> string list" where
  "cleanUpWorkspaceSpecificStringArray array = arraySort defaultCompare (foldl (\<lambda>s x. setAdd x s) [] array)"

text \<open>
  Modelled from the spec: \<^verbatim>\<open>ExternalFileManager.appendToFile\<close>, whose source is not at hand.
  The specification gives the file store append semantics: the values are added at the
  end of the file.
\<close>

definition appendToFile :: "string \<Rightarrow> string \<Rightarrow> string list \<Rightarrow> store \<Rightarrow> store" where
  "appendToFile path name values st =
     st\<lparr>files := (files st)(path := files st path @ values),
        appendCalls := appendCalls st @ [(path, name, values)]\<rparr>"

subsection \<open>addToLanguageSpecificSettingInternalSetting (lines 319-342)\<close>

text \<open>One iteration of the loop of lines 325-332.\<close>

definition mergeLanguage ::
  "languageSpecificSettingValue \<Rightarrow> string \<times> string list \<Rightarrow> languageSpecificSettingValue" where
  "mergeLanguage settingValue entry =
     (case entry of (language, values) \<Rightarrow>
        (let languageSettingValue =
               (case settingValue language of Some v \<Rightarrow> v | None \<Rightarrow> [])
         in settingValue(language \<mapsto>
              cleanUpWorkspaceSpecificStringArray (languageSettingValue @ values))))"

text \<open>
  Lines 321-332: the part of the function that runs before its first \<^verbatim>\<open>await\<close>. It reads
  the effective value and merges the entries into it.
\<close>

definition mergedSettingValue :: "store \<Rightarrow> string \<Rightarrow> languageEntries \<Rightarrow> languageSpecificSettingValue" where
  "mergedSettingValue st name entries = foldl mergeLanguage (getConfiguration st name) entries"

text \<open>
  Lines 334-341: the configuration targets are tried in order. A rejected update is caught;
  the one of the last target is logged. The function has no other way out than its
  \<^verbatim>\<open>return\<close> after an accepted update and the end of the loop, so the result is a store.
\<close>

fun updateLoop ::
  "editor \<Rightarrow> string \<Rightarrow> languageSpecificSettingValue \<Rightarrow> configurationTarget list \<Rightarrow> store \<Rightarrow> store" where
  "updateLoop env name settingValue [] st = st"
| "updateLoop env name settingValue (scope # rest) st =
     (case updateRejection env name scope of
        None \<Rightarrow>
          st\<lparr>updateCalls := updateCalls st @ [(name, settingValue, scope)],
             settings := (settings st)(scope := (settings st scope)(name \<mapsto> settingValue))\<rparr>
      | Some e \<Rightarrow>
          updateLoop env name settingValue rest
            (if rest = []
             then st\<lparr>updateCalls := updateCalls st @ [(name, settingValue, scope)],
                     logged := logged st @ [CouldNotSetConfiguration name e]\<rparr>
             else st\<lparr>updateCalls := updateCalls st @ [(name, settingValue, scope)]\<rparr>))"

definition addToLanguageSpecificSettingInternalSetting ::
  "editor \<Rightarrow> uri \<Rightarrow> string \<Rightarrow> configurationTarget list \<Rightarrow> languageEntries \<Rightarrow> store \<Rightarrow> store" where
  "addToLanguageSpecificSettingInternalSetting env u name scopes entries st =
     updateLoop env name (mergedSettingValue st name entries) scopes st"

subsection \<open>addToLanguageSpecificSettingExternalFile (lines 294-317)\<close>

text \<open>The loop of lines 300-309: the path found at the first target that has one.\<close>

fun firstExternalFile ::
  "editor \<Rightarrow> uri \<Rightarrow> string \<Rightarrow> configurationTarget list \<Rightarrow> string \<Rightarrow> string option" where
  "firstExternalFile env u name [] language = None"
| "firstExternalFile env u name (scope # rest) language =
     (case getFirstExternalFilePath env u name scope language of
        Some externalFilePath \<Rightarrow> Some externalFilePath
      | None \<Rightarrow> firstExternalFile env u name rest language)"

text \<open>
  The call of line 314 is not awaited. An \<^verbatim>\<open>async\<close> function runs up to its first
  \<^verbatim>\<open>await\<close> when it is called; for \<^verbatim>\<open>addToLanguageSpecificSettingInternalSetting\<close> that is
  lines 321-336: the read of the effective value, the merge, and the call of \<^verbatim>\<open>update\<close>
  at the first target. What is left of the call is an update in flight: its value, the
  target it was issued at and the targets that remain.
\<close>

type_synonym pendingUpdate =
  "languageSpecificSettingValue \<times> configurationTarget \<times> configurationTarget list"

definition startInternalSetting ::
  "string \<Rightarrow> configurationTarget list \<Rightarrow> languageEntries \<Rightarrow> store \<Rightarrow> store \<times> pendingUpdate list" where
  "startInternalSetting name scopes entries st =
     (let settingValue = mergedSettingValue st name entries in
      case scopes of
        [] \<Rightarrow> (st, [])
      | scope # rest \<Rightarrow>
          (st\<lparr>updateCalls := updateCalls st @ [(name, settingValue, scope)]\<rparr>,
           [(settingValue, scope, rest)]))"

text \<open>
  The updates in flight settle in the order in which they were issued. An accepted update
  stores its value and ends its call (line 337). A rejected one resumes its call in the
  \<^verbatim>\<open>catch\<close> of lines 338-340: at the last target the error is logged, otherwise the next
  iteration issues the update at the next target, behind the updates already in flight.
\<close>

function settleUpdates :: "editor \<Rightarrow> string \<Rightarrow> pendingUpdate list \<Rightarrow> store \<Rightarrow> store" where
  "settleUpdates env name [] st = st"
| "settleUpdates env name ((settingValue, scope, rest) # queue) st =
     (case updateRejection env name scope of
        None \<Rightarrow>
          settleUpdates env name queue
            (st\<lparr>settings := (settings st)(scope := (settings st scope)(name \<mapsto> settingValue))\<rparr>)
      | Some e \<Rightarrow>
          (case rest of
             [] \<Rightarrow>
               settleUpdates env name queue
                 (st\<lparr>logged := logged st @ [CouldNotSetConfiguration name e]\<rparr>)
           | following # rest' \<Rightarrow>
               settleUpdates env name (queue @ [(settingValue, following, rest')])
                 (st\<lparr>updateCalls := updateCalls st @ [(name, settingValue, following)]\<rparr>)))"
  by pat_completeness auto
termination
  by (relation "measure (\<lambda>(env, name, queue, st).
        sum_list (map (\<lambda>(v, scope, rest). Suc (length rest)) queue))") auto

text \<open>
  The loop of lines 296-316: a language with an external file is appended to that file; for
  a language without one the inline call is started with that one language, and its update
  stays in flight while the loop goes on.
\<close>

fun externalFileLoop ::
  "editor \<Rightarrow> uri \<Rightarrow> string \<Rightarrow> configurationTarget list \<Rightarrow> languageEntries \<Rightarrow> store
     \<Rightarrow> store \<times> pendingUpdate list" where
  "externalFileLoop env u name scopes [] st = (st, [])"
| "externalFileLoop env u name scopes ((language, values) # rest) st =
     (case firstExternalFile env u name scopes language of
        Some externalFilePath \<Rightarrow>
          externalFileLoop env u name scopes rest (appendToFile externalFilePath name values st)
      | None \<Rightarrow>
          (let languageEntries = [(language, values)];
               (st1, started) = startInternalSetting name scopes languageEntries st;
               (st', later) = externalFileLoop env u name scopes rest st1
           in (st', started @ later)))"

text \<open>The function returns after the loop; the updates in flight settle afterwards.\<close>

definition addToLanguageSpecificSettingExternalFile ::
  "editor \<Rightarrow> uri \<Rightarrow> string \<Rightarrow> configurationTarget list \<Rightarrow> languageEntries \<Rightarrow> store \<Rightarrow> store" where
  "addToLanguageSpecificSettingExternalFile env u name scopes entries st =
     (case externalFileLoop env u name scopes entries st of
        (st', inFlight) \<Rightarrow> settleUpdates env name inFlight st')"

subsection \<open>addToLanguageSpecificSetting (lines 253-292)\<close>

text \<open>Lines 255-270: the scope string, with the deprecated settings as fallback.\<close>

definition resolveScopeString :: "editor \<Rightarrow> uri \<Rightarrow> string \<Rightarrow> string option" where
  "resolveScopeString env u settingName =
     (let resourceConfig = configurationTargetSetting env u in
      case resourceConfig settingName of
        Some scopeString \<Rightarrow> Some scopeString
      | None \<Rightarrow>
          if settingName = ''dictionary'' then resourceConfig ''addToDictionary''
          else if settingName = ''disabledRules'' then resourceConfig ''disableRule''
          else if settingName = ''hiddenFalsePositives'' then resourceConfig ''ignoreRuleInSentence''
          else None)"

text \<open>Lines 272-285: the targets to try; \<open>Inl\<close> is the invalid value that is logged.\<close>

definition resolveScopes :: "string option \<Rightarrow> string + configurationTarget list" where
  "resolveScopes scopeString =
     (case scopeString of
        None \<Rightarrow> Inr [WorkspaceFolder, Workspace, Global]
      | Some s \<Rightarrow>
          if startsWith s ''workspaceFolder'' then Inr [WorkspaceFolder, Workspace, Global]
          else if startsWith s ''workspace'' then Inr [Workspace, Global]
          else if startsWith s ''user'' \<or> startsWith s ''global'' then Inr [Global]
          else Inl s)"

text \<open>Line 287: the storage medium.\<close>

definition usesExternalFile :: "string option \<Rightarrow> bool" where
  "usesExternalFile scopeString =
     (case scopeString of None \<Rightarrow> True | Some s \<Rightarrow> endsWith s ''ExternalFile'')"

definition addToLanguageSpecificSetting ::
  "editor \<Rightarrow> uri \<Rightarrow> string \<Rightarrow> languageEntries \<Rightarrow> store \<Rightarrow> store" where
  "addToLanguageSpecificSetting env u settingName entries st =
     (let scopeString = resolveScopeString env u settingName in
      case resolveScopes scopeString of
        Inl invalid \<Rightarrow> st\<lparr>logged := logged st @ [InvalidValueForConfigurationTarget invalid]\<rparr>
      | Inr scopes \<Rightarrow>
          if usesExternalFile scopeString
          then addToLanguageSpecificSettingExternalFile env u settingName scopes entries st
          else addToLanguageSpecificSettingInternalSetting env u settingName scopes entries st)"


subsection \<open>The scope preference and the targets tried, in the words of the specification\<close>

text \<open>
  One deprecated setting stands in for each setting name; the scope preference is the
  value of the setting named after the setting or, when that is absent, of its deprecated
  alias.
\<close>

definition deprecatedAlias :: "string \<Rightarrow> string option" where
  "deprecatedAlias settingName =
     map_of [(''dictionary'', ''addToDictionary''),
             (''disabledRules'', ''disableRule''),
             (''hiddenFalsePositives'', ''ignoreRuleInSentence'')] settingName"

definition specScopePreference :: "editor \<Rightarrow> uri \<Rightarrow> string \<Rightarrow> string option" where
  "specScopePreference env u settingName =
     (case configurationTargetSetting env u settingName of
        Some s \<Rightarrow> Some s
      | None \<Rightarrow>
          (case deprecatedAlias settingName of
             Some alias \<Rightarrow> configurationTargetSetting env u alias
           | None \<Rightarrow> None))"





subsection \<open>Example editors and stores\<close>

definition exampleEditor ::
  "(string \<Rightarrow> string option) \<Rightarrow> (configurationTarget \<Rightarrow> string \<Rightarrow> string option) \<Rightarrow>
   (configurationTarget \<Rightarrow> string option) \<Rightarrow> editor" where
  "exampleEditor target paths rejection =
     \<lparr>configurationTargetSetting = (\<lambda>u. target),
      getFirstExternalFilePath = (\<lambda>u name scope language. paths scope language),
      updateRejection = (\<lambda>name scope. rejection scope)\<rparr>"

definition emptyStore :: store where
  "emptyStore = \<lparr>settings = (\<lambda>target name. None), files = (\<lambda>path. []),
                 updateCalls = [], appendCalls = [], logged = []\<rparr>"

definition exampleDocument :: uri where
  "exampleDocument = exampleUri ''/project/paper.tex''"

definition noExternalFiles :: "configurationTarget \<Rightarrow> string \<Rightarrow> string option" where
  "noExternalFiles scope language = None"

definition acceptEverywhere :: "configurationTarget \<Rightarrow> string option" where
  "acceptEverywhere scope = None"

definition scopeEditor :: "(string \<times> string) list \<Rightarrow> editor" where
  "scopeEditor target = exampleEditor (map_of target) noExternalFiles acceptEverywhere"

definition globalDictionary :: store where
  "globalDictionary =
     emptyStore\<lparr>settings := (\<lambda>target name.
       if target = Global \<and> name = ''dictionary'' then Some [''en-US'' \<mapsto> [''foo'']] else None)\<rparr>"

definition noFolderOpen :: "configurationTarget \<Rightarrow> string option" where
  "noFolderOpen scope = (if scope = WorkspaceFolder then Some ''no folder is open'' else None)"

definition rejectEverywhere :: "configurationTarget \<Rightarrow> string option" where
  "rejectEverywhere scope = Some ''configuration is read-only''"

definition inlineEditor :: "(configurationTarget \<Rightarrow> string option) \<Rightarrow> editor" where
  "inlineEditor rejection =
     exampleEditor (map_of [(''dictionary'', ''workspaceFolder'')]) noExternalFiles rejection"

definition workspaceFile :: "configurationTarget \<Rightarrow> string \<Rightarrow> string option" where
  "workspaceFile scope language =
     (if scope = Workspace \<and> language = ''en-US''
      then Some ''/project/.vscode/ltex.dictionary.en-US.txt'' else None)"

definition fileEditor :: editor where
  "fileEditor = exampleEditor (map_of []) workspaceFile acceptEverywhere"

definition fileStore :: store where
  "fileStore =
     emptyStore\<lparr>files := (\<lambda>path.
       if path = ''/project/.vscode/ltex.dictionary.en-US.txt'' then [''foo''] else [])\<rparr>"


section \<open>Properties of the sort\<close>

lemma set_insertBy: "set (insertBy cmp x ys) = insert x (set ys)"
  by (induction ys) auto

lemma mset_insertBy: "mset (insertBy cmp x ys) = add_mset x (mset ys)"
  by (induction ys) auto

lemma mset_arraySort: "mset (arraySort cmp xs) = mset xs"
  unfolding arraySort_def by (induction xs) (simp_all add: mset_insertBy)

lemma set_arraySort: "set (arraySort cmp xs) = set xs"
  using mset_arraySort [of cmp xs] by (metis set_mset_mset)

lemma distinct_arraySort: "distinct (arraySort cmp xs) = distinct xs"
  using mset_arraySort [of cmp xs] by (rule mset_eq_imp_distinct_iff)

lemma length_arraySort: "length (arraySort cmp xs) = length xs"
  using mset_arraySort [of cmp xs] by (metis size_mset)

lemma comparator_total:
  assumes "consistentComparator cmp" and "\<not> cmp x y \<le> 0"
  shows "cmp y x \<le> 0"
proof -
  from assms(2) have "0 < cmp x y" by simp
  with assms(1) have "cmp y x < 0" unfolding consistentComparator_def by blast
  then show ?thesis by simp
qed

lemma comparator_trans:
  assumes "consistentComparator cmp" and "cmp a b \<le> 0" and "cmp b c \<le> 0"
  shows "cmp a c \<le> 0"
  using assms unfolding consistentComparator_def by blast

lemma sorted_insertBy:
  assumes c: "consistentComparator cmp"
  shows "sorted_wrt (\<lambda>a b. cmp a b \<le> 0) ys \<Longrightarrow> sorted_wrt (\<lambda>a b. cmp a b \<le> 0) (insertBy cmp x ys)"
proof (induction ys)
  case Nil
  then show ?case by simp
next
  case (Cons y ys)
  show ?case
  proof (cases "cmp x y \<le> 0")
    case True
    have "\<forall>z\<in>set ys. cmp x z \<le> 0"
    proof
      fix z assume "z \<in> set ys"
      with Cons.prems have "cmp y z \<le> 0" by simp
      with True show "cmp x z \<le> 0" using comparator_trans [OF c] by blast
    qed
    with True Cons.prems show ?thesis by simp
  next
    case False
    then have "cmp y x \<le> 0" using comparator_total [OF c] by blast
    with False Cons show ?thesis by (auto simp: set_insertBy)
  qed
qed

lemma sorted_arraySort:
  assumes "consistentComparator cmp"
  shows "sorted_wrt (\<lambda>a b. cmp a b \<le> 0) (arraySort cmp xs)"
  unfolding arraySort_def
  by (induction xs) (simp_all add: sorted_insertBy [OF assms])

lemma defaultCompare_consistent: "consistentComparator defaultCompare"
  unfolding consistentComparator_def defaultCompare_def by (auto split: if_splits)

lemma defaultCompare_le: "(defaultCompare a b \<le> 0) = (a \<le> b)"
  unfolding defaultCompare_def by auto

lemma sorted_arraySort_default: "sorted (arraySort defaultCompare xs)"
  using sorted_arraySort [OF defaultCompare_consistent, of xs]
  by (simp add: defaultCompare_le)


section \<open>Properties of getEnabledFileExtensions\<close>

lemma set_setAdd: "set (setAdd x s) = insert x (set s)"
  by (auto simp: setAdd_def)

lemma distinct_setAdd: "distinct s \<Longrightarrow> distinct (setAdd x s)"
  by (auto simp: setAdd_def)

lemma set_addExtension:
  "set (addExtension s c) = set s \<union> specLanguageExtensions c"
  by (auto simp: addExtension_def specLanguageExtensions_def set_setAdd)

lemma distinct_addExtension: "distinct s \<Longrightarrow> distinct (addExtension s c)"
  by (simp add: addExtension_def distinct_setAdd)

lemma set_foldl_addExtension:
  "set (foldl addExtension s ids) = set s \<union> (\<Union>c\<in>set ids. specLanguageExtensions c)"
  by (induction ids arbitrary: s) (auto simp: set_addExtension)

lemma distinct_foldl_addExtension:
  "distinct s \<Longrightarrow> distinct (foldl addExtension s ids)"
  by (induction ids arbitrary: s) (simp_all add: distinct_addExtension)

text \<open>
  Claim C8. \<open>getEnabledFileExtensions\<close> returns \<open>[bib, md, tex]\<close> when \<open>enabled\<close> is
  \<open>true\<close> and the empty list when it is \<open>false\<close>; for a list of language identifiers
  the extensions returned are exactly those that the listed languages are mapped to
  (\<open>bibtex\<rightarrow>bib\<close>, \<open>latex\<rightarrow>tex\<close>, \<open>rsweave\<rightarrow>tex\<close>, \<open>markdown\<rightarrow>md\<close>); whatever the
  setting, the result has no duplicates and is in ascending lexicographic order.
\<close>

theorem getEnabledFileExtensions_spec:
  "getEnabledFileExtensions (EnabledBool True) = [''bib'', ''md'', ''tex''] \<and>
   getEnabledFileExtensions (EnabledBool False) = [] \<and>
   set (getEnabledFileExtensions (EnabledList ids)) = (\<Union>c\<in>set ids. specLanguageExtensions c) \<and>
   distinct (getEnabledFileExtensions en) \<and>
   sorted (getEnabledFileExtensions en)"
proof -
  have t: "getEnabledFileExtensions (EnabledBool True) = [''bib'', ''md'', ''tex'']"
    by (simp add: getEnabledFileExtensions_def addExtension_def setAdd_def arraySort_def
        defaultCompare_def)
  have f: "getEnabledFileExtensions (EnabledBool False) = []"
    by (simp add: getEnabledFileExtensions_def arraySort_def)
  have l: "set (getEnabledFileExtensions (EnabledList ids)) = (\<Union>c\<in>set ids. specLanguageExtensions c)"
    by (simp add: getEnabledFileExtensions_def set_arraySort set_foldl_addExtension)
  have d: "distinct (getEnabledFileExtensions en)"
    by (simp add: getEnabledFileExtensions_def Let_def distinct_arraySort distinct_foldl_addExtension)
  have s: "sorted (getEnabledFileExtensions en)"
    by (simp add: getEnabledFileExtensions_def Let_def sorted_arraySort_default)
  from t f l d s show ?thesis by blast
qed

lemmas example_defs = exampleWorkspace_def exampleClient_def exampleUri_def
  checkAllDocumentsInWorkspace_def sortedUris_def fileGlob_def getEnabledFileExtensions_def
  addExtension_def setAdd_def arraySort_def defaultCompare_def checkDocument_def Let_def


section \<open>Stability of the sort\<close>

lemma filter_insertBy:
  assumes c: "consistentComparator cmp"
  shows "filter (\<lambda>z. cmp z w = 0) (insertBy cmp x ys) =
         (if cmp x w = 0 then x # filter (\<lambda>z. cmp z w = 0) ys else filter (\<lambda>z. cmp z w = 0) ys)"
proof (induction ys)
  case Nil
  then show ?case by simp
next
  case (Cons y ys)
  show ?case
  proof (cases "cmp x y \<le> 0")
    case True
    then show ?thesis by simp
  next
    case False
    have "\<not> (cmp x w = 0 \<and> cmp y w = 0)"
    proof
      assume a: "cmp x w = 0 \<and> cmp y w = 0"
      then have "\<not> 0 < cmp y w" by simp
      with c have "\<not> cmp w y < 0" unfolding consistentComparator_def by blast
      moreover from a have "\<not> cmp y w < 0" by simp
      with c have "\<not> 0 < cmp w y" unfolding consistentComparator_def by blast
      ultimately have "cmp w y \<le> 0" by simp
      moreover from a have "cmp x w \<le> 0" by simp
      ultimately have "cmp x y \<le> 0" using comparator_trans [OF c] by blast
      with False show False by simp
    qed
    with False Cons.IH show ?thesis by auto
  qed
qed

lemma arraySort_stable:
  assumes "consistentComparator cmp"
  shows "filter (\<lambda>z. cmp z w = 0) (arraySort cmp xs) = filter (\<lambda>z. cmp z w = 0) xs"
  unfolding arraySort_def
  by (induction xs) (simp_all add: filter_insertBy [OF assms])

lemma consistent_on_fsPath:
  assumes "consistentComparator cmp"
  shows "consistentComparator (\<lambda>lhs rhs. cmp (fsPath lhs) (fsPath rhs))"
  using assms unfolding consistentComparator_def by blast

lemma sort_three:
  assumes c: "consistentComparator cmp"
    and ab: "cmp a b < 0" and bc: "cmp b c < 0"
  shows "arraySort cmp [b, a, c] = [a, b, c]"
proof -
  from ab bc have "cmp a c \<le> 0" using comparator_trans [OF c, of a b c] by simp
  moreover from c ab have "0 < cmp b a" unfolding consistentComparator_def by blast
  ultimately show ?thesis using bc by (simp add: arraySort_def)
qed


section \<open>Properties of the batch checker\<close>

lemma checkDocument_client:
  assumes "languageClient env = Some client"
  shows "checkDocument env u st =
     (if success (client (requests st) u) then (True, st\<lparr>requests := requests st @ [u]\<rparr>)
      else (False, st\<lparr>requests := requests st @ [u],
                     shown := shown st @ [CouldNotCheckDocument (fsPath u) (errorMessage (client (requests st) u))]\<rparr>))"
  using assms by (simp add: checkDocument_def Let_def)

lemma checkLoop_requests_extend:
  assumes "languageClient env = Some client"
  shows "\<exists>k\<le>length us. requests (snd (checkLoop env i us st)) = requests st @ take k us"
proof (induction us arbitrary: i st)
  case Nil
  then show ?case by simp
next
  case (Cons u us)
  show ?case
  proof (cases "isCancellationRequested env (Suc i)")
    case True
    then have "requests (snd (checkLoop env i (u # us) st)) = requests st @ take 0 (u # us)" by simp
    then show ?thesis by blast
  next
    case nc: False
    show ?thesis
    proof (cases "success (client (requests st) u)")
      case False
      with nc have "requests (snd (checkLoop env i (u # us) st)) = requests st @ take 1 (u # us)"
        by (simp add: checkDocument_client [OF assms])
      moreover have "(1::nat) \<le> length (u # us)" by simp
      ultimately show ?thesis by blast
    next
      case True
      let ?st1 = "st\<lparr>requests := requests st @ [u]\<rparr>"
      from Cons.IH [of "Suc i" ?st1] obtain k where
        k: "k \<le> length us" "requests (snd (checkLoop env (Suc i) us ?st1)) = requests ?st1 @ take k us"
        by blast
      from nc True have "checkLoop env i (u # us) st = checkLoop env (Suc i) us ?st1"
        by (simp add: checkDocument_client [OF assms])
      with k have "requests (snd (checkLoop env i (u # us) st)) = requests st @ take (Suc k) (u # us)"
        by simp
      moreover from k have "Suc k \<le> length (u # us)" by simp
      ultimately show ?thesis by blast
    qed
  qed
qed

lemma checkLoop_failure_last:
  assumes c: "languageClient env = Some client"
  shows "checkLoop env i us st = (r, st') \<Longrightarrow> k < length (requests st') \<Longrightarrow>
         length (requests st) \<le> k \<Longrightarrow>
         \<not> success (client (take k (requests st')) (requests st' ! k)) \<Longrightarrow>
         r = Some False \<and> requests st' = requests st @ take (Suc k - length (requests st)) us"
proof (induction us arbitrary: i st)
  case Nil
  then show ?case by simp
next
  case (Cons u us)
  show ?case
  proof (cases "isCancellationRequested env (Suc i)")
    case True
    with Cons.prems show ?thesis by simp
  next
    case nc: False
    show ?thesis
    proof (cases "success (client (requests st) u)")
      case False
      with nc Cons.prems(1) have r: "r = Some False" and s: "requests st' = requests st @ [u]"
        by (auto simp: checkDocument_client [OF c])
      from s Cons.prems(2,3) have "k = length (requests st)" by simp
      with r s show ?thesis by simp
    next
      case True
      let ?st1 = "st\<lparr>requests := requests st @ [u]\<rparr>"
      from nc True Cons.prems(1) have loop: "checkLoop env (Suc i) us ?st1 = (r, st')"
        by (simp add: checkDocument_client [OF c])
      from checkLoop_requests_extend [OF c, of us "Suc i" ?st1] loop
      obtain m where m: "requests st' = requests st @ u # take m us" by auto
      have "k \<noteq> length (requests st)"
      proof
        assume "k = length (requests st)"
        with m have "take k (requests st') = requests st" "requests st' ! k = u" by simp_all
        with Cons.prems(4) True show False by simp
      qed
      with Cons.prems(3) have k: "length (requests ?st1) \<le> k" by simp
      from Cons.IH [OF loop Cons.prems(2) k Cons.prems(4)]
      have r: "r = Some False"
        and s: "requests st' = requests ?st1 @ take (Suc k - length (requests ?st1)) us"
        by simp_all
      from k have "Suc k - length (requests st) = Suc (k - length (requests st))" by simp
      with r s show ?thesis by simp
    qed
  qed
qed

lemma checkLoop_all_succeed:
  assumes c: "languageClient env = Some client"
  shows "\<forall>j<length us. \<not> isCancellationRequested env (Suc (i + j)) \<and>
            success (client (requests st @ take j us) (us ! j)) \<Longrightarrow>
         checkLoop env i us st = (None, st\<lparr>requests := requests st @ us\<rparr>)"
proof (induction us arbitrary: i st)
  case Nil
  then show ?case by simp
next
  case (Cons u us)
  let ?st1 = "st\<lparr>requests := requests st @ [u]\<rparr>"
  from Cons.prems have h0: "\<not> isCancellationRequested env (Suc i)" "success (client (requests st) u)"
    by force+
  have "\<forall>j<length us. \<not> isCancellationRequested env (Suc (Suc i + j)) \<and>
            success (client (requests ?st1 @ take j us) (us ! j))"
  proof (intro allI impI)
    fix j assume "j < length us"
    then have "Suc j < length (u # us)" by simp
    with Cons.prems have "\<not> isCancellationRequested env (Suc (i + Suc j)) \<and>
            success (client (requests st @ take (Suc j) (u # us)) ((u # us) ! Suc j))" by blast
    then show "\<not> isCancellationRequested env (Suc (Suc i + j)) \<and>
            success (client (requests ?st1 @ take j us) (us ! j))" by simp
  qed
  from Cons.IH [OF this] h0 show ?case
    by (simp add: checkDocument_client [OF c])
qed

lemma checkLoop_cancelled_at:
  assumes c: "languageClient env = Some client"
  shows "n < length us \<Longrightarrow> isCancellationRequested env (Suc (i + n)) \<Longrightarrow>
         \<forall>j<n. \<not> isCancellationRequested env (Suc (i + j)) \<and>
            success (client (requests st @ take j us) (us ! j)) \<Longrightarrow>
         checkLoop env i us st = (Some True, st\<lparr>requests := requests st @ take n us\<rparr>)"
proof (induction us arbitrary: i st n)
  case Nil
  then show ?case by simp
next
  case (Cons u us)
  show ?case
  proof (cases n)
    case 0
    with Cons.prems show ?thesis by simp
  next
    case (Suc m)
    let ?st1 = "st\<lparr>requests := requests st @ [u]\<rparr>"
    from Cons.prems(3) Suc have h0: "\<not> isCancellationRequested env (Suc i)" "success (client (requests st) u)"
      by force+
    have m: "m < length us" using Cons.prems(1) Suc by simp
    have cm: "isCancellationRequested env (Suc (Suc i + m))" using Cons.prems(2) Suc by simp
    have "\<forall>j<m. \<not> isCancellationRequested env (Suc (Suc i + j)) \<and>
            success (client (requests ?st1 @ take j us) (us ! j))"
    proof (intro allI impI)
      fix j assume "j < m"
      then have "Suc j < n" using Suc by simp
      with Cons.prems(3) have "\<not> isCancellationRequested env (Suc (i + Suc j)) \<and>
            success (client (requests st @ take (Suc j) (u # us)) ((u # us) ! Suc j))" by blast
      then show "\<not> isCancellationRequested env (Suc (Suc i + j)) \<and>
            success (client (requests ?st1 @ take j us) (us ! j))" by simp
    qed
    from Cons.IH [OF m cm this] h0 Suc show ?thesis
      by (simp add: checkDocument_client [OF c])
  qed
qed

lemma checkLoop_failure_cause:
  assumes c: "languageClient env = Some client"
  shows "checkLoop env i us st = (Some False, st') \<Longrightarrow>
         \<exists>zs u. requests st' = zs @ [u] \<and> \<not> success (client zs u)"
proof (induction us arbitrary: i st)
  case Nil
  then show ?case by simp
next
  case (Cons u us)
  show ?case
  proof (cases "isCancellationRequested env (Suc i)")
    case True
    with Cons.prems show ?thesis by simp
  next
    case nc: False
    show ?thesis
    proof (cases "success (client (requests st) u)")
      case False
      with nc Cons.prems have "requests st' = requests st @ [u]"
        by (auto simp: checkDocument_client [OF c])
      with False show ?thesis by blast
    next
      case True
      with nc Cons.prems
      have "checkLoop env (Suc i) us (st\<lparr>requests := requests st @ [u]\<rparr>) = (Some False, st')"
        by (simp add: checkDocument_client [OF c])
      from Cons.IH [OF this] show ?thesis .
    qed
  qed
qed

lemma checkAll_requests_prefix:
  "prefix (requests (snd (checkAllDocumentsInWorkspace env))) (sortedUris env)"
proof (cases "languageClient env")
  case None
  then show ?thesis by (simp add: checkAllDocumentsInWorkspace_def)
next
  case (Some client)
  let ?st0 = "\<lparr>requests = [], shown = []\<rparr>"
  obtain r st where loop: "checkLoop env 0 (sortedUris env) ?st0 = (r, st)" by force
  from checkLoop_requests_extend [OF Some, of "sortedUris env" 0 ?st0] loop
  obtain k where "requests st = take k (sortedUris env)" by auto
  then have p: "prefix (requests st) (sortedUris env)" by (simp add: take_is_prefix)
  show ?thesis
    using Some loop p
    by (auto simp: checkAllDocumentsInWorkspace_def Let_def split: option.splits)
qed

lemma checkAll_undisturbed:
  assumes "undisturbed env client"
  shows "checkAllDocumentsInWorkspace env =
           (if sortedUris env = [] then
              (False, \<lparr>requests = [], shown =
                 [if workspaceFolders env = None then CouldNotCheckDocumentsAsNoFoldersWereOpened
                  else CouldNotCheckDocumentsAsNoDocumentsWereFound]\<rparr>)
            else (True, \<lparr>requests = sortedUris env, shown = []\<rparr>))"
proof -
  let ?st0 = "\<lparr>requests = [], shown = []\<rparr>"
  from assms have c: "languageClient env = Some client"
    and e: "getEnabledFileExtensions (enabled env) \<noteq> []"
    and n0: "\<not> isCancellationRequested env 0"
    and all: "\<forall>j<length (sortedUris env).
          \<not> isCancellationRequested env (Suc (0 + j)) \<and>
          success (client (requests ?st0 @ take j (sortedUris env)) (sortedUris env ! j))"
    unfolding undisturbed_def by simp_all
  from checkLoop_all_succeed [OF c all]
  have "checkLoop env 0 (sortedUris env) ?st0 = (None, \<lparr>requests = sortedUris env, shown = []\<rparr>)"
    by simp
  with c e n0 show ?thesis
    by (simp add: checkAllDocumentsInWorkspace_def Let_def)
qed

text \<open>
  Claim C1. When a check requested by \<open>checkAllDocumentsInWorkspace\<close> reports failure, the
  command returns failure and that request is the last one it makes: the requests made are
  the documents of the sorted list up to and including the failing one, so no document
  after the first failing one is checked.
\<close>

theorem checkAll_fail_fast:
  assumes "languageClient env = Some client"
    and "checkAllDocumentsInWorkspace env = (ok, st)"
    and "k < length (requests st)"
    and "\<not> success (client (take k (requests st)) (requests st ! k))"
  shows "\<not> ok \<and> requests st = take (Suc k) (sortedUris env)"
proof -
  let ?st0 = "\<lparr>requests = [], shown = []\<rparr>"
  from assms(2,3) have reqs: "requests st \<noteq> []" by auto
  have nc: "\<not> isCancellationRequested env 0"
  proof
    assume "isCancellationRequested env 0"
    with assms(1,2) have "requests st = []"
      by (auto simp: checkAllDocumentsInWorkspace_def Let_def)
    with reqs show False by simp
  qed
  have ne: "getEnabledFileExtensions (enabled env) \<noteq> []"
  proof
    assume "getEnabledFileExtensions (enabled env) = []"
    with assms(1,2) have "requests st = []"
      by (auto simp: checkAllDocumentsInWorkspace_def Let_def split: if_splits)
    with reqs show False by simp
  qed
  obtain r st' where loop: "checkLoop env 0 (sortedUris env) ?st0 = (r, st')" by force
  with assms(1,2) nc ne have st': "requests st' = requests st"
    by (auto simp: checkAllDocumentsInWorkspace_def Let_def split: option.splits if_splits)
  from checkLoop_failure_last [OF assms(1) loop, of k] assms(3,4) st'
  have r: "r = Some False" and s: "requests st' = take (Suc k) (sortedUris env)" by simp_all
  from assms(1,2) nc ne loop r have "ok = False"
    by (simp add: checkAllDocumentsInWorkspace_def Let_def)
  with s st' show ?thesis by simp
qed

theorem checkAll_fail_fast_witness:
  "languageClient secondOfThreeFails = Some (exampleClient ''b.tex'') \<and>
   checkAllDocumentsInWorkspace secondOfThreeFails =
     (False, \<lparr>requests = [exampleUri ''a.tex'', exampleUri ''b.tex''],
              shown = [CouldNotCheckDocument ''b.tex'' (Some ''unreadable'')]\<rparr>) \<and>
   \<not> success (exampleClient ''b.tex'' [exampleUri ''a.tex''] (exampleUri ''b.tex'')) \<and>
   [exampleUri ''a.tex'', exampleUri ''b.tex''] = take (Suc 1) (sortedUris secondOfThreeFails)"
proof -
  let ?st = "\<lparr>requests = [exampleUri ''a.tex'', exampleUri ''b.tex''],
                shown = [CouldNotCheckDocument ''b.tex'' (Some ''unreadable'')]\<rparr>"
  have c: "languageClient secondOfThreeFails = Some (exampleClient ''b.tex'')"
    by (simp add: secondOfThreeFails_def exampleWorkspace_def)
  have run: "checkAllDocumentsInWorkspace secondOfThreeFails = (False, ?st)"
    by (simp add: secondOfThreeFails_def example_defs)
  have k: "1 < length (requests ?st)" by simp
  have f: "\<not> success (exampleClient ''b.tex'' [exampleUri ''a.tex''] (exampleUri ''b.tex''))"
    by (simp add: exampleClient_def exampleUri_def)
  have f': "\<not> success (exampleClient ''b.tex'' (take 1 (requests ?st)) (requests ?st ! 1))"
    using f by simp
  have "requests ?st = take (Suc 1) (sortedUris secondOfThreeFails)"
    using checkAll_fail_fast [OF c run k f'] by blast
  then have "[exampleUri ''a.tex'', exampleUri ''b.tex''] = take (Suc 1) (sortedUris secondOfThreeFails)"
    by simp
  with c run f show ?thesis by blast
qed

text \<open>
  Claim C9. The documents are checked one after the other in the order of the sorted list:
  the requests made are always a prefix of that list and, in an undisturbed run, the whole
  list. With a consistent \<open>localeCompare\<close> the sorted list is a rearrangement of the
  documents found in which no path compares greater than a later one, and documents whose
  paths compare equal keep the order in which they were found, so the order is determined
  by the documents found. Documents found as \<open>[b.tex, a.tex, c.tex]\<close> are checked in the
  order \<open>[a.tex, b.tex, c.tex]\<close>.
\<close>

theorem checkAll_sorted_order:
  assumes "consistentComparator (localeCompare env)"
  shows "prefix (requests (snd (checkAllDocumentsInWorkspace env))) (sortedUris env) \<and>
         mset (sortedUris env) = mset (findFiles env (fileGlob env)) \<and>
         sorted_wrt (\<lambda>a b. localeCompare env (fsPath a) (fsPath b) \<le> 0) (sortedUris env) \<and>
         (\<forall>w::uri. filter (\<lambda>z. localeCompare env (fsPath z) (fsPath w) = 0) (sortedUris env) =
               filter (\<lambda>z. localeCompare env (fsPath z) (fsPath w) = 0) (findFiles env (fileGlob env))) \<and>
         (undisturbed env client \<longrightarrow> requests (snd (checkAllDocumentsInWorkspace env)) = sortedUris env) \<and>
         (findFiles env (fileGlob env) = [b, a, c] \<and>
          localeCompare env (fsPath a) (fsPath b) < 0 \<and> localeCompare env (fsPath b) (fsPath c) < 0
            \<longrightarrow> sortedUris env = [a, b, c])"
proof -
  let ?cmp = "\<lambda>lhs rhs. localeCompare env (fsPath lhs) (fsPath rhs)"
  have c: "consistentComparator ?cmp" by (rule consistent_on_fsPath [OF assms])
  have p: "prefix (requests (snd (checkAllDocumentsInWorkspace env))) (sortedUris env)"
    by (rule checkAll_requests_prefix)
  have m: "mset (sortedUris env) = mset (findFiles env (fileGlob env))"
    by (simp add: sortedUris_def mset_arraySort)
  have s: "sorted_wrt (\<lambda>a b. localeCompare env (fsPath a) (fsPath b) \<le> 0) (sortedUris env)"
    unfolding sortedUris_def by (rule sorted_arraySort [OF c])
  have st: "\<forall>w::uri. filter (\<lambda>z. localeCompare env (fsPath z) (fsPath w) = 0) (sortedUris env) =
               filter (\<lambda>z. localeCompare env (fsPath z) (fsPath w) = 0) (findFiles env (fileGlob env))"
  proof
    fix w :: uri
    show "filter (\<lambda>z. localeCompare env (fsPath z) (fsPath w) = 0) (sortedUris env) =
               filter (\<lambda>z. localeCompare env (fsPath z) (fsPath w) = 0) (findFiles env (fileGlob env))"
      unfolding sortedUris_def by (rule arraySort_stable [OF c])
  qed
  have u: "undisturbed env client \<longrightarrow> requests (snd (checkAllDocumentsInWorkspace env)) = sortedUris env"
    by (auto simp: checkAll_undisturbed)
  have e: "findFiles env (fileGlob env) = [b, a, c] \<and>
          localeCompare env (fsPath a) (fsPath b) < 0 \<and> localeCompare env (fsPath b) (fsPath c) < 0
            \<longrightarrow> sortedUris env = [a, b, c]"
    unfolding sortedUris_def using sort_three [OF c, of a b c] by auto
  from p m s st u e show ?thesis by blast
qed

theorem checkAll_sorted_order_witness:
  "consistentComparator (localeCompare threeDocuments) \<and>
   undisturbed threeDocuments (exampleClient ''none'') \<and>
   findFiles threeDocuments (fileGlob threeDocuments) =
     [exampleUri ''b.tex'', exampleUri ''a.tex'', exampleUri ''c.tex''] \<and>
   localeCompare threeDocuments (fsPath (exampleUri ''a.tex'')) (fsPath (exampleUri ''b.tex'')) < 0 \<and>
   localeCompare threeDocuments (fsPath (exampleUri ''b.tex'')) (fsPath (exampleUri ''c.tex'')) < 0 \<and>
   sortedUris threeDocuments = [exampleUri ''a.tex'', exampleUri ''b.tex'', exampleUri ''c.tex''] \<and>
   requests (snd (checkAllDocumentsInWorkspace threeDocuments)) =
     [exampleUri ''a.tex'', exampleUri ''b.tex'', exampleUri ''c.tex'']"
proof -
  have lc: "localeCompare threeDocuments = defaultCompare"
    by (simp add: threeDocuments_def exampleWorkspace_def)
  have c: "consistentComparator (localeCompare threeDocuments)"
    unfolding lc by (rule defaultCompare_consistent)
  have f: "findFiles threeDocuments (fileGlob threeDocuments) =
     [exampleUri ''b.tex'', exampleUri ''a.tex'', exampleUri ''c.tex'']"
    by (simp add: threeDocuments_def example_defs)
  have ab: "localeCompare threeDocuments (fsPath (exampleUri ''a.tex'')) (fsPath (exampleUri ''b.tex'')) < 0"
    by (simp add: lc exampleUri_def defaultCompare_def)
  have bc: "localeCompare threeDocuments (fsPath (exampleUri ''b.tex'')) (fsPath (exampleUri ''c.tex'')) < 0"
    by (simp add: lc exampleUri_def defaultCompare_def)
  note inst = checkAll_sorted_order [OF c, of "exampleClient ''none''"
      "exampleUri ''b.tex''" "exampleUri ''a.tex''" "exampleUri ''c.tex''"]
  from inst f ab bc
  have s: "sortedUris threeDocuments = [exampleUri ''a.tex'', exampleUri ''b.tex'', exampleUri ''c.tex'']"
    by blast
  have u: "undisturbed threeDocuments (exampleClient ''none'')"
    unfolding undisturbed_def s
    by (simp add: threeDocuments_def example_defs less_Suc_eq)
  from inst
  have "undisturbed threeDocuments (exampleClient ''none'') \<longrightarrow>
        requests (snd (checkAllDocumentsInWorkspace threeDocuments)) = sortedUris threeDocuments"
    by blast
  with u s
  have r: "requests (snd (checkAllDocumentsInWorkspace threeDocuments)) =
     [exampleUri ''a.tex'', exampleUri ''b.tex'', exampleUri ''c.tex'']"
    by simp
  from c u f ab bc s r show ?thesis by blast
qed

text \<open>
  Claim C6, as amended. Without a language client the command returns failure before it
  reads the cancellation token. With a language client: when the token is set where the
  command reads it, at the start of the discovery phase or in front of a document that is
  about to be checked, the command returns success at once, with exactly the documents
  before that point checked; in particular a cancellation after the discovery of at least
  one document and before the first check returns success with no document checked. In
  every run a failure is returned only when the language client is missing, when the
  discovery found no document or when a check failed.
\<close>

theorem checkAll_cancellation:
  "(languageClient env = None \<longrightarrow>
      checkAllDocumentsInWorkspace env = (False, \<lparr>requests = [], shown = [LtexNotInitialized]\<rparr>)) \<and>
   (languageClient env = Some client \<and> isCancellationRequested env 0 \<longrightarrow>
      checkAllDocumentsInWorkspace env = (True, \<lparr>requests = [], shown = []\<rparr>)) \<and>
   (languageClient env = Some client \<and>
    getEnabledFileExtensions (enabled env) \<noteq> [] \<and> \<not> isCancellationRequested env 0 \<and>
    n < length (sortedUris env) \<and> isCancellationRequested env (Suc n) \<and>
    (\<forall>j<n. \<not> isCancellationRequested env (Suc j) \<and>
           success (client (take j (sortedUris env)) (sortedUris env ! j))) \<longrightarrow>
      checkAllDocumentsInWorkspace env =
        (True, \<lparr>requests = take n (sortedUris env), shown = []\<rparr>)) \<and>
   (languageClient env = Some client \<and>
    getEnabledFileExtensions (enabled env) \<noteq> [] \<and> \<not> isCancellationRequested env 0 \<and>
    sortedUris env \<noteq> [] \<and> isCancellationRequested env 1 \<longrightarrow>
      checkAllDocumentsInWorkspace env = (True, \<lparr>requests = [], shown = []\<rparr>)) \<and>
   (checkAllDocumentsInWorkspace env = (False, st) \<longrightarrow>
      languageClient env = None \<or>
      sortedUris env = [] \<or>
      (\<exists>sendRequest zs u. languageClient env = Some sendRequest \<and>
         requests st = zs @ [u] \<and> \<not> success (sendRequest zs u)))"
proof -
  let ?st0 = "\<lparr>requests = [], shown = []\<rparr>"
  have at: "checkAllDocumentsInWorkspace env = (True, \<lparr>requests = take m (sortedUris env), shown = []\<rparr>)"
    if c: "languageClient env = Some client"
      and e: "getEnabledFileExtensions (enabled env) \<noteq> []" and n0: "\<not> isCancellationRequested env 0"
      and m: "m < length (sortedUris env)" and cm: "isCancellationRequested env (Suc m)"
      and before: "\<forall>j<m. \<not> isCancellationRequested env (Suc j) \<and>
                 success (client (take j (sortedUris env)) (sortedUris env ! j))"
    for m
  proof -
    from cm have cm': "isCancellationRequested env (Suc (0 + m))" by simp
    from before have b': "\<forall>j<m. \<not> isCancellationRequested env (Suc (0 + j)) \<and>
            success (client (requests ?st0 @ take j (sortedUris env)) (sortedUris env ! j))" by simp
    from checkLoop_cancelled_at [OF c m cm' b']
    have "checkLoop env 0 (sortedUris env) ?st0 =
            (Some True, \<lparr>requests = take m (sortedUris env), shown = []\<rparr>)" by simp
    with c e n0 show ?thesis by (simp add: checkAllDocumentsInWorkspace_def Let_def)
  qed
  have p0: "languageClient env = None \<longrightarrow>
      checkAllDocumentsInWorkspace env = (False, \<lparr>requests = [], shown = [LtexNotInitialized]\<rparr>)"
    by (simp add: checkAllDocumentsInWorkspace_def Let_def)
  have p1: "languageClient env = Some client \<and> isCancellationRequested env 0 \<longrightarrow>
            checkAllDocumentsInWorkspace env = (True, \<lparr>requests = [], shown = []\<rparr>)"
    by (simp add: checkAllDocumentsInWorkspace_def Let_def)
  have p2: "languageClient env = Some client \<and>
          getEnabledFileExtensions (enabled env) \<noteq> [] \<and> \<not> isCancellationRequested env 0 \<and>
          n < length (sortedUris env) \<and> isCancellationRequested env (Suc n) \<and>
          (\<forall>j<n. \<not> isCancellationRequested env (Suc j) \<and>
                 success (client (take j (sortedUris env)) (sortedUris env ! j))) \<longrightarrow>
            checkAllDocumentsInWorkspace env =
              (True, \<lparr>requests = take n (sortedUris env), shown = []\<rparr>)"
    using at [of n] by blast
  have p3: "languageClient env = Some client \<and>
          getEnabledFileExtensions (enabled env) \<noteq> [] \<and> \<not> isCancellationRequested env 0 \<and>
          sortedUris env \<noteq> [] \<and> isCancellationRequested env 1 \<longrightarrow>
            checkAllDocumentsInWorkspace env = (True, \<lparr>requests = [], shown = []\<rparr>)"
    using at [of 0] by simp
  have p4: "checkAllDocumentsInWorkspace env = (False, st) \<longrightarrow>
            languageClient env = None \<or>
            sortedUris env = [] \<or>
            (\<exists>sendRequest zs u. languageClient env = Some sendRequest \<and>
               requests st = zs @ [u] \<and> \<not> success (sendRequest zs u))"
  proof (cases "languageClient env")
    case None
    then show ?thesis by simp
  next
    case (Some sendRequest)
    note c = Some
    show ?thesis
    proof
      assume run: "checkAllDocumentsInWorkspace env = (False, st)"
      obtain r st' where loop: "checkLoop env 0 (sortedUris env) ?st0 = (r, st')" by force
      from run c have n0: "\<not> isCancellationRequested env 0"
        by (auto simp: checkAllDocumentsInWorkspace_def Let_def)
      from run c n0 have e: "getEnabledFileExtensions (enabled env) \<noteq> []"
        by (auto simp: checkAllDocumentsInWorkspace_def Let_def)
      show "languageClient env = None \<or> sortedUris env = [] \<or>
            (\<exists>sendRequest zs u. languageClient env = Some sendRequest \<and>
               requests st = zs @ [u] \<and> \<not> success (sendRequest zs u))"
      proof (cases r)
        case None
        with run c n0 e loop have "sortedUris env = []"
          by (auto simp: checkAllDocumentsInWorkspace_def Let_def split: if_splits)
        then show ?thesis by simp
      next
        case (Some b)
        with run c n0 e loop have "b = False" and "st' = st"
          by (auto simp: checkAllDocumentsInWorkspace_def Let_def)
        with Some loop have "checkLoop env 0 (sortedUris env) ?st0 = (Some False, st)" by simp
        from checkLoop_failure_cause [OF c this] c show ?thesis by blast
      qed
    qed
  qed
  from p0 p1 p2 p3 p4 show ?thesis by (intro conjI)
qed

theorem checkAll_cancellation_witness:
  "languageClient cancelledAfterDiscovery = Some (exampleClient ''none'') \<and>
   getEnabledFileExtensions (enabled cancelledAfterDiscovery) \<noteq> [] \<and>
   \<not> isCancellationRequested cancelledAfterDiscovery 0 \<and>
   sortedUris cancelledAfterDiscovery \<noteq> [] \<and>
   isCancellationRequested cancelledAfterDiscovery 1 \<and>
   checkAllDocumentsInWorkspace cancelledAfterDiscovery = (True, \<lparr>requests = [], shown = []\<rparr>) \<and>
   \<not> isCancellationRequested cancelledBeforeSecond 1 \<and>
   isCancellationRequested cancelledBeforeSecond 2 \<and>
   checkAllDocumentsInWorkspace cancelledBeforeSecond =
     (True, \<lparr>requests = [exampleUri ''a.tex''], shown = []\<rparr>) \<and>
   languageClient notInitialized = None \<and>
   checkAllDocumentsInWorkspace notInitialized =
     (False, \<lparr>requests = [], shown = [LtexNotInitialized]\<rparr>)"
proof -
  have c0: "languageClient notInitialized = None"
    by (simp add: notInitialized_def)
  from checkAll_cancellation [of notInitialized] c0
  have r0: "checkAllDocumentsInWorkspace notInitialized =
     (False, \<lparr>requests = [], shown = [LtexNotInitialized]\<rparr>)"
    by blast
  have c: "languageClient cancelledAfterDiscovery = Some (exampleClient ''none'')"
    by (simp add: cancelledAfterDiscovery_def exampleWorkspace_def)
  have h: "getEnabledFileExtensions (enabled cancelledAfterDiscovery) \<noteq> [] \<and>
     \<not> isCancellationRequested cancelledAfterDiscovery 0 \<and>
     sortedUris cancelledAfterDiscovery \<noteq> [] \<and>
     isCancellationRequested cancelledAfterDiscovery 1"
    by (simp add: cancelledAfterDiscovery_def example_defs)
  from checkAll_cancellation [of cancelledAfterDiscovery "exampleClient ''none''"] c h
  have r: "checkAllDocumentsInWorkspace cancelledAfterDiscovery =
      (True, \<lparr>requests = [], shown = []\<rparr>)"
    by blast
  have c2: "languageClient cancelledBeforeSecond = Some (exampleClient ''none'')"
    by (simp add: cancelledBeforeSecond_def exampleWorkspace_def)
  have s2: "sortedUris cancelledBeforeSecond =
      [exampleUri ''a.tex'', exampleUri ''b.tex'', exampleUri ''c.tex'']"
    by (simp add: cancelledBeforeSecond_def example_defs)
  have t: "\<not> isCancellationRequested cancelledBeforeSecond 1 \<and>
     isCancellationRequested cancelledBeforeSecond 2"
    by (simp add: cancelledBeforeSecond_def exampleWorkspace_def)
  have h2: "getEnabledFileExtensions (enabled cancelledBeforeSecond) \<noteq> [] \<and>
     \<not> isCancellationRequested cancelledBeforeSecond 0 \<and>
     1 < length (sortedUris cancelledBeforeSecond) \<and>
     isCancellationRequested cancelledBeforeSecond (Suc 1) \<and>
     (\<forall>j<1. \<not> isCancellationRequested cancelledBeforeSecond (Suc j) \<and>
        success (exampleClient ''none'' (take j (sortedUris cancelledBeforeSecond))
                   (sortedUris cancelledBeforeSecond ! j)))"
    unfolding s2 by (simp add: cancelledBeforeSecond_def example_defs)
  from checkAll_cancellation [of cancelledBeforeSecond "exampleClient ''none''" 1] c2 h2
  have "checkAllDocumentsInWorkspace cancelledBeforeSecond =
      (True, \<lparr>requests = take 1 (sortedUris cancelledBeforeSecond), shown = []\<rparr>)"
    by blast
  then have r2: "checkAllDocumentsInWorkspace cancelledBeforeSecond =
      (True, \<lparr>requests = [exampleUri ''a.tex''], shown = []\<rparr>)"
    unfolding s2 by simp
  from c h r t r2 c0 r0 show ?thesis by (intro conjI) simp_all
qed

text \<open>
  The claim C6 as stated fails when the discovery finds no document: the token is read
  again only in front of a document, so a cancellation after the discovery goes unnoticed
  and the command returns failure with the message that no documents were found.
\<close>

theorem checkAll_cancellation_counterexample:
  "languageClient cancelledAfterEmptyDiscovery = Some (exampleClient ''none'') \<and>
   getEnabledFileExtensions (enabled cancelledAfterEmptyDiscovery) = [''bib'', ''md'', ''tex''] \<and>
   \<not> isCancellationRequested cancelledAfterEmptyDiscovery 0 \<and>
   isCancellationRequested cancelledAfterEmptyDiscovery 1 \<and>
   checkAllDocumentsInWorkspace cancelledAfterEmptyDiscovery =
     (False, \<lparr>requests = [], shown = [CouldNotCheckDocumentsAsNoDocumentsWereFound]\<rparr>)"
  by (simp add: cancelledAfterEmptyDiscovery_def example_defs)

section \<open>Properties of the setting resolver and merger\<close>

lemmas editor_defs = scopeEditor_def exampleEditor_def noExternalFiles_def acceptEverywhere_def
  exampleDocument_def exampleUri_def emptyStore_def

lemmas editor2_defs = inlineEditor_def noFolderOpen_def rejectEverywhere_def workspaceFile_def
  fileEditor_def fileStore_def globalDictionary_def

lemmas addEntries_defs = addToLanguageSpecificSetting_def resolveScopeString_def
  resolveScopes_def usesExternalFile_def startsWith_def endsWith_def
  addToLanguageSpecificSettingExternalFile_def addToLanguageSpecificSettingInternalSetting_def
  mergedSettingValue_def mergeLanguage_def getConfiguration_def storedValue_def
  cleanUpWorkspaceSpecificStringArray_def setAdd_def arraySort_def defaultCompare_def
  appendToFile_def Let_def

subsection \<open>The scope chain\<close>

lemma startsWith_prefix: "startsWith s p = prefix p s"
proof
  assume "startsWith s p"
  then have "take (length p) s = p" by (simp add: startsWith_def)
  then show "prefix p s" by (metis take_is_prefix)
next
  assume "prefix p s"
  then obtain zs where "s = p @ zs" by (auto simp: prefix_def)
  then show "startsWith s p" by (simp add: startsWith_def)
qed

lemma resolveScopeString_spec:
  "resolveScopeString env u settingName = specScopePreference env u settingName"
  by (simp add: resolveScopeString_def specScopePreference_def deprecatedAlias_def Let_def
      split: option.splits)

lemma resolveScopes_nonempty: "resolveScopes pref = Inr scopes \<Longrightarrow> scopes \<noteq> []"
  by (auto simp: resolveScopes_def split: option.splits if_splits)

lemma addToLanguageSpecificSetting_cases:
  "addToLanguageSpecificSetting env u name entries st =
     (case resolveScopes (resolveScopeString env u name) of
        Inl invalid \<Rightarrow> st\<lparr>logged := logged st @ [InvalidValueForConfigurationTarget invalid]\<rparr>
      | Inr scopes \<Rightarrow>
          if usesExternalFile (resolveScopeString env u name)
          then addToLanguageSpecificSettingExternalFile env u name scopes entries st
          else addToLanguageSpecificSettingInternalSetting env u name scopes entries st)"
  by (simp add: addToLanguageSpecificSetting_def Let_def)

text \<open>
  Claim C2. The scope preference read by \<open>addToLanguageSpecificSetting\<close> is the value of the
  setting named after the setting, with the deprecated alias of that name as fallback when
  it is absent. It is mapped to the chain of targets as follows: absent, or starting with
  \<open>workspaceFolder\<close>, gives folder, workspace, global; starting with \<open>workspace\<close> but not
  with \<open>workspaceFolder\<close> gives workspace, global; starting with \<open>user\<close> or \<open>global\<close> gives
  global; and the operation continues with that chain. Any other non-empty value is
  invalid: the operation logs one error and changes nothing else, so that no
  configuration update and no file append takes place.
\<close>

theorem addEntries_scope_chain:
  fixes env :: editor and u :: uri and settingName :: string and entries :: languageEntries
    and st :: store
  defines "pref \<equiv> specScopePreference env u settingName"
  defines "persist \<equiv> \<lambda>scopes.
     if usesExternalFile pref
     then addToLanguageSpecificSettingExternalFile env u settingName scopes entries st
     else addToLanguageSpecificSettingInternalSetting env u settingName scopes entries st"
  shows "resolveScopeString env u settingName = pref \<and>
    (pref = None \<or> (\<exists>s. pref = Some s \<and> prefix ''workspaceFolder'' s) \<longrightarrow>
       resolveScopes pref = Inr [WorkspaceFolder, Workspace, Global] \<and>
       addToLanguageSpecificSetting env u settingName entries st =
         persist [WorkspaceFolder, Workspace, Global]) \<and>
    ((\<exists>s. pref = Some s \<and> prefix ''workspace'' s \<and> \<not> prefix ''workspaceFolder'' s) \<longrightarrow>
       resolveScopes pref = Inr [Workspace, Global] \<and>
       addToLanguageSpecificSetting env u settingName entries st = persist [Workspace, Global]) \<and>
    ((\<exists>s. pref = Some s \<and> (prefix ''user'' s \<or> prefix ''global'' s)) \<longrightarrow>
       resolveScopes pref = Inr [Global] \<and>
       addToLanguageSpecificSetting env u settingName entries st = persist [Global]) \<and>
    (\<forall>s. pref = Some s \<and> s \<noteq> [] \<and> \<not> prefix ''workspace'' s \<and> \<not> prefix ''user'' s \<and>
         \<not> prefix ''global'' s \<longrightarrow>
       resolveScopes pref = Inl s \<and>
       addToLanguageSpecificSetting env u settingName entries st =
         st\<lparr>logged := logged st @ [InvalidValueForConfigurationTarget s]\<rparr>)"
proof -
  have r: "resolveScopeString env u settingName = pref"
    unfolding pref_def by (rule resolveScopeString_spec)
  have wf_w: "prefix ''workspaceFolder'' s \<Longrightarrow> prefix ''workspace'' s" for s :: string
    by (auto simp: prefix_def)
  have u_w: "prefix ''user'' s \<Longrightarrow> prefix ''workspace'' s \<Longrightarrow> False" for s :: string
    by (auto simp: prefix_def)
  have g_w: "prefix ''global'' s \<Longrightarrow> prefix ''workspace'' s \<Longrightarrow> False" for s :: string
    by (auto simp: prefix_def)
  have u_wf: "prefix ''user'' s \<Longrightarrow> prefix ''workspaceFolder'' s \<Longrightarrow> False" for s :: string
    by (auto simp: prefix_def)
  have g_wf: "prefix ''global'' s \<Longrightarrow> prefix ''workspaceFolder'' s \<Longrightarrow> False" for s :: string
    by (auto simp: prefix_def)
  have add: "addToLanguageSpecificSetting env u settingName entries st =
      (case resolveScopes pref of
         Inl invalid \<Rightarrow> st\<lparr>logged := logged st @ [InvalidValueForConfigurationTarget invalid]\<rparr>
       | Inr scopes \<Rightarrow> persist scopes)"
    unfolding persist_def by (simp add: addToLanguageSpecificSetting_def r Let_def)
  have p1: "pref = None \<or> (\<exists>s. pref = Some s \<and> prefix ''workspaceFolder'' s) \<longrightarrow>
       resolveScopes pref = Inr [WorkspaceFolder, Workspace, Global] \<and>
       addToLanguageSpecificSetting env u settingName entries st =
         persist [WorkspaceFolder, Workspace, Global]"
    unfolding add by (auto simp: resolveScopes_def startsWith_prefix)
  have p2: "(\<exists>s. pref = Some s \<and> prefix ''workspace'' s \<and> \<not> prefix ''workspaceFolder'' s) \<longrightarrow>
       resolveScopes pref = Inr [Workspace, Global] \<and>
       addToLanguageSpecificSetting env u settingName entries st = persist [Workspace, Global]"
    unfolding add by (auto simp: resolveScopes_def startsWith_prefix)
  have p3: "(\<exists>s. pref = Some s \<and> (prefix ''user'' s \<or> prefix ''global'' s)) \<longrightarrow>
       resolveScopes pref = Inr [Global] \<and>
       addToLanguageSpecificSetting env u settingName entries st = persist [Global]"
    unfolding add by (auto simp: resolveScopes_def startsWith_prefix dest: u_w g_w u_wf g_wf)
  have p4: "\<forall>s. pref = Some s \<and> s \<noteq> [] \<and> \<not> prefix ''workspace'' s \<and> \<not> prefix ''user'' s \<and>
         \<not> prefix ''global'' s \<longrightarrow>
       resolveScopes pref = Inl s \<and>
       addToLanguageSpecificSetting env u settingName entries st =
         st\<lparr>logged := logged st @ [InvalidValueForConfigurationTarget s]\<rparr>"
    unfolding add by (auto simp: resolveScopes_def startsWith_prefix dest: wf_w)
  from r p1 p2 p3 p4 show ?thesis by blast
qed

theorem addEntries_scope_chain_witness:
  "resolveScopes (specScopePreference (scopeEditor []) exampleDocument ''dictionary'') =
     Inr [WorkspaceFolder, Workspace, Global] \<and>
   resolveScopes (specScopePreference
       (scopeEditor [(''addToDictionary'', ''workspaceFolderExternalFile'')]) exampleDocument
       ''dictionary'') =
     Inr [WorkspaceFolder, Workspace, Global] \<and>
   resolveScopes (specScopePreference
       (scopeEditor [(''dictionary'', ''workspaceExternalFile'')]) exampleDocument ''dictionary'') =
     Inr [Workspace, Global] \<and>
   resolveScopes (specScopePreference
       (scopeEditor [(''dictionary'', ''user'')]) exampleDocument ''dictionary'') =
     Inr [Global] \<and>
   addToLanguageSpecificSetting (scopeEditor [(''dictionary'', ''invalidScope'')]) exampleDocument
     ''dictionary'' [(''en-US'', [''foo''])] globalDictionary =
     globalDictionary\<lparr>logged := logged globalDictionary @
       [InvalidValueForConfigurationTarget ''invalidScope'']\<rparr>"
proof -
  have p0: "specScopePreference (scopeEditor []) exampleDocument ''dictionary'' = None"
    by (simp add: specScopePreference_def deprecatedAlias_def editor_defs)
  have p1: "specScopePreference
       (scopeEditor [(''addToDictionary'', ''workspaceFolderExternalFile'')]) exampleDocument
       ''dictionary'' = Some ''workspaceFolderExternalFile''"
    by (simp add: specScopePreference_def deprecatedAlias_def editor_defs)
  have p2: "specScopePreference
       (scopeEditor [(''dictionary'', ''workspaceExternalFile'')]) exampleDocument ''dictionary''
       = Some ''workspaceExternalFile''"
    by (simp add: specScopePreference_def deprecatedAlias_def editor_defs)
  have p3: "specScopePreference
       (scopeEditor [(''dictionary'', ''user'')]) exampleDocument ''dictionary'' = Some ''user''"
    by (simp add: specScopePreference_def deprecatedAlias_def editor_defs)
  have p4: "specScopePreference
       (scopeEditor [(''dictionary'', ''invalidScope'')]) exampleDocument ''dictionary''
       = Some ''invalidScope''"
    by (simp add: specScopePreference_def deprecatedAlias_def editor_defs)
  have h1: "prefix ''workspaceFolder'' ''workspaceFolderExternalFile''" by simp
  have h2: "prefix ''workspace'' ''workspaceExternalFile'' \<and>
            \<not> prefix ''workspaceFolder'' ''workspaceExternalFile''" by simp
  have h3: "prefix ''user'' ''user''" by simp
  have h4: "''invalidScope'' \<noteq> [] \<and> \<not> prefix ''workspace'' ''invalidScope'' \<and>
            \<not> prefix ''user'' ''invalidScope'' \<and> \<not> prefix ''global'' ''invalidScope''" by simp
  have r0: "resolveScopes (specScopePreference (scopeEditor []) exampleDocument ''dictionary'') =
     Inr [WorkspaceFolder, Workspace, Global]"
    using addEntries_scope_chain [of "scopeEditor []" exampleDocument "''dictionary''"] p0
    by blast
  have r1: "resolveScopes (specScopePreference
       (scopeEditor [(''addToDictionary'', ''workspaceFolderExternalFile'')]) exampleDocument
       ''dictionary'') = Inr [WorkspaceFolder, Workspace, Global]"
    using addEntries_scope_chain [of "scopeEditor [(''addToDictionary'', ''workspaceFolderExternalFile'')]"
        exampleDocument "''dictionary''"] p1 h1
    by blast
  have r2: "resolveScopes (specScopePreference
       (scopeEditor [(''dictionary'', ''workspaceExternalFile'')]) exampleDocument ''dictionary'') =
     Inr [Workspace, Global]"
    using addEntries_scope_chain [of "scopeEditor [(''dictionary'', ''workspaceExternalFile'')]"
        exampleDocument "''dictionary''"] p2 h2
    by blast
  have r3: "resolveScopes (specScopePreference
       (scopeEditor [(''dictionary'', ''user'')]) exampleDocument ''dictionary'') = Inr [Global]"
    using addEntries_scope_chain [of "scopeEditor [(''dictionary'', ''user'')]"
        exampleDocument "''dictionary''"] p3 h3
    by blast
  have r4: "addToLanguageSpecificSetting (scopeEditor [(''dictionary'', ''invalidScope'')])
     exampleDocument ''dictionary'' [(''en-US'', [''foo''])] globalDictionary =
     globalDictionary\<lparr>logged := logged globalDictionary @
       [InvalidValueForConfigurationTarget ''invalidScope'']\<rparr>"
    using addEntries_scope_chain [of "scopeEditor [(''dictionary'', ''invalidScope'')]"
        exampleDocument "''dictionary''" "[(''en-US'', [''foo''])]" globalDictionary] p4 h4
    by blast
  from r0 r1 r2 r3 r4 show ?thesis by (intro conjI)
qed

text \<open>
  Claim C10. When the setting named after the setting is the empty string, the deprecated
  alias is not consulted: whatever the alias holds, the scope string is the empty string,
  it is invalid, and the operation logs one error and changes nothing else.
\<close>

theorem empty_scope_string_invalid:
  assumes "configurationTargetSetting env u settingName = Some []"
  shows "resolveScopeString env u settingName = Some [] \<and>
         resolveScopes (Some []) = Inl [] \<and>
         addToLanguageSpecificSetting env u settingName entries st =
           st\<lparr>logged := logged st @ [InvalidValueForConfigurationTarget []]\<rparr>"
  using assms
  by (simp add: addToLanguageSpecificSetting_def resolveScopeString_def resolveScopes_def
      startsWith_def Let_def)

theorem empty_scope_string_invalid_witness:
  "configurationTargetSetting
     (scopeEditor [(''dictionary'', []), (''addToDictionary'', ''user'')]) exampleDocument
     ''dictionary'' = Some [] \<and>
   addToLanguageSpecificSetting
     (scopeEditor [(''dictionary'', []), (''addToDictionary'', ''user'')]) exampleDocument
     ''dictionary'' [(''en-US'', [''foo''])] emptyStore =
     emptyStore\<lparr>logged := [InvalidValueForConfigurationTarget []]\<rparr>"
proof -
  let ?E = "scopeEditor [(''dictionary'', []), (''addToDictionary'', ''user'')]"
  have h: "configurationTargetSetting ?E exampleDocument ''dictionary'' = Some []"
    by (simp add: editor_defs)
  from empty_scope_string_invalid [OF h, of "[(''en-US'', [''foo''])]" emptyStore]
  have "addToLanguageSpecificSetting ?E exampleDocument ''dictionary'' [(''en-US'', [''foo''])]
          emptyStore = emptyStore\<lparr>logged := logged emptyStore @ [InvalidValueForConfigurationTarget []]\<rparr>"
    by blast
  moreover have "logged emptyStore = []" by (simp add: emptyStore_def)
  ultimately show ?thesis using h by simp
qed

subsection \<open>The update with fallback\<close>




lemma updateLoop_frame:
  "files (updateLoop env name v scopes st) = files st \<and>
   appendCalls (updateLoop env name v scopes st) = appendCalls st"
  by (induction scopes arbitrary: st) (auto simp: Let_def split: option.splits)




subsection \<open>The external files and the updates in flight\<close>

lemma getConfiguration_cong:
  assumes "settings st1 = settings st2"
  shows "getConfiguration st1 name = getConfiguration st2 name"
  unfolding getConfiguration_def storedValue_def assms ..

lemma mergedSettingValue_cong:
  assumes "settings st1 = settings st2"
  shows "mergedSettingValue st1 name es = mergedSettingValue st2 name es"
  unfolding mergedSettingValue_def getConfiguration_cong [OF assms] ..

lemma appendToFile_fields:
  "settings (appendToFile path name vals st) = settings st"
  "updateCalls (appendToFile path name vals st) = updateCalls st"
  "logged (appendToFile path name vals st) = logged st"
  "appendCalls (appendToFile path name vals st) = appendCalls st @ [(path, name, vals)]"
  "files (appendToFile path name vals st) p = (if p = path then files st path @ vals else files st p)"
  by (simp_all add: appendToFile_def)

lemma startInternalSetting_fields:
  "settings (fst (startInternalSetting name scopes es st)) = settings st"
  "logged (fst (startInternalSetting name scopes es st)) = logged st"
  "files (fst (startInternalSetting name scopes es st)) = files st"
  "appendCalls (fst (startInternalSetting name scopes es st)) = appendCalls st"
  by (simp_all add: startInternalSetting_def Let_def split: list.splits)

lemma startInternalSetting_value:
  "p \<in> set (snd (startInternalSetting name scopes es st)) \<Longrightarrow>
   fst p = mergedSettingValue st name es"
  by (auto simp: startInternalSetting_def Let_def split: list.splits)

text \<open>
  A single call started and settled on its own is the loop of lines 334-341 run to its
  end: the model of the awaited call.
\<close>

lemma settle_single:
  "settleUpdates env name [(v, scope, rest)]
     (st\<lparr>updateCalls := updateCalls st @ [(name, v, scope)]\<rparr>) =
   updateLoop env name v (scope # rest) st"
proof (induction rest arbitrary: scope st)
  case Nil
  show ?case by (simp split: option.splits)
next
  case (Cons following rest')
  show ?case
  proof (cases "updateRejection env name scope")
    case None
    then show ?thesis by simp
  next
    case (Some e)
    from Cons.IH [of following "st\<lparr>updateCalls := updateCalls st @ [(name, v, scope)]\<rparr>"] Some
    show ?thesis by simp
  qed
qed

lemma start_settle_internal:
  "(case startInternalSetting name scopes es st of
      (st', inFlight) \<Rightarrow> settleUpdates env name inFlight st') =
   addToLanguageSpecificSettingInternalSetting env u name scopes es st"
proof (cases scopes)
  case Nil
  then show ?thesis
    by (simp add: startInternalSetting_def addToLanguageSpecificSettingInternalSetting_def)
next
  case (Cons scope rest)
  then show ?thesis
    by (simp add: startInternalSetting_def addToLanguageSpecificSettingInternalSetting_def
        Let_def settle_single del: updateLoop.simps settleUpdates.simps)
qed

lemma settleUpdates_frame:
  "files (settleUpdates env name queue st) = files st \<and>
   appendCalls (settleUpdates env name queue st) = appendCalls st"
  by (induction env name queue st rule: settleUpdates.induct)
     (auto split: option.splits list.splits)

lemma externalFileLoop_unchanged:
  "settings (fst (externalFileLoop env u name scopes entries st)) = settings st \<and>
   logged (fst (externalFileLoop env u name scopes entries st)) = logged st"
proof (induction entries arbitrary: st)
  case Nil
  show ?case by simp
next
  case (Cons entry rest)
  obtain language vals where entry: "entry = (language, vals)" by (cases entry)
  show ?case
  proof (cases "firstExternalFile env u name scopes language")
    case None
    with Cons.IH [of "fst (startInternalSetting name scopes [(language, vals)] st)"]
    show ?thesis
      by (simp add: entry case_prod_beta Let_def startInternalSetting_fields)
  next
    case (Some path)
    with Cons.IH [of "appendToFile path name vals st"] show ?thesis
      by (simp add: entry appendToFile_fields)
  qed
qed

text \<open>
  Claim C3. In external file mode, two languages without an external file are each handed
  to the inline path as a one-key map, and nothing is appended to a file; but the entries
  so handed over are not all persisted. Both inline calls read the configuration before
  either update has settled, and the second update replaces the value of the first: after
  the call the entries of the first language are stored at no target and have no effective
  value. The same entries in inline mode are merged in one call and stored for both
  languages.
\<close>

theorem external_fallback_loses_entries:
  "resolveScopes (resolveScopeString (scopeEditor []) exampleDocument ''dictionary'') =
     Inr [WorkspaceFolder, Workspace, Global] \<and>
   usesExternalFile (resolveScopeString (scopeEditor []) exampleDocument ''dictionary'') \<and>
   firstExternalFile (scopeEditor []) exampleDocument ''dictionary''
     [WorkspaceFolder, Workspace, Global] ''en-US'' = None \<and>
   firstExternalFile (scopeEditor []) exampleDocument ''dictionary''
     [WorkspaceFolder, Workspace, Global] ''de-DE'' = None \<and>
   map (\<lambda>c. (fst (snd c) ''en-US'', fst (snd c) ''de-DE'', snd (snd c)))
     (updateCalls (addToLanguageSpecificSetting (scopeEditor []) exampleDocument ''dictionary''
        [(''en-US'', [''foo'']), (''de-DE'', [''Haus''])] emptyStore)) =
     [(Some [''foo''], None, WorkspaceFolder), (None, Some [''Haus''], WorkspaceFolder)] \<and>
   logged (addToLanguageSpecificSetting (scopeEditor []) exampleDocument ''dictionary''
        [(''en-US'', [''foo'']), (''de-DE'', [''Haus''])] emptyStore) = [] \<and>
   appendCalls (addToLanguageSpecificSetting (scopeEditor []) exampleDocument ''dictionary''
        [(''en-US'', [''foo'']), (''de-DE'', [''Haus''])] emptyStore) = [] \<and>
   storedValue (addToLanguageSpecificSetting (scopeEditor []) exampleDocument ''dictionary''
        [(''en-US'', [''foo'']), (''de-DE'', [''Haus''])] emptyStore)
     WorkspaceFolder ''dictionary'' ''de-DE'' = Some [''Haus''] \<and>
   storedValue (addToLanguageSpecificSetting (scopeEditor []) exampleDocument ''dictionary''
        [(''en-US'', [''foo'']), (''de-DE'', [''Haus''])] emptyStore)
     WorkspaceFolder ''dictionary'' ''en-US'' = None \<and>
   storedValue (addToLanguageSpecificSetting (scopeEditor []) exampleDocument ''dictionary''
        [(''en-US'', [''foo'']), (''de-DE'', [''Haus''])] emptyStore)
     Workspace ''dictionary'' ''en-US'' = None \<and>
   storedValue (addToLanguageSpecificSetting (scopeEditor []) exampleDocument ''dictionary''
        [(''en-US'', [''foo'']), (''de-DE'', [''Haus''])] emptyStore)
     Global ''dictionary'' ''en-US'' = None \<and>
   getConfiguration (addToLanguageSpecificSetting (scopeEditor []) exampleDocument ''dictionary''
        [(''en-US'', [''foo'']), (''de-DE'', [''Haus''])] emptyStore)
     ''dictionary'' ''en-US'' = None \<and>
   getConfiguration (addToLanguageSpecificSetting (inlineEditor acceptEverywhere) exampleDocument
        ''dictionary'' [(''en-US'', [''foo'']), (''de-DE'', [''Haus''])] emptyStore)
     ''dictionary'' ''en-US'' = Some [''foo''] \<and>
   getConfiguration (addToLanguageSpecificSetting (inlineEditor acceptEverywhere) exampleDocument
        ''dictionary'' [(''en-US'', [''foo'']), (''de-DE'', [''Haus''])] emptyStore)
     ''dictionary'' ''de-DE'' = Some [''Haus'']"
  by (simp add: addEntries_defs editor_defs editor2_defs startInternalSetting_def)

subsection \<open>The merge\<close>

lemma mergeLanguage_other:
  "language \<noteq> fst entry \<Longrightarrow> mergeLanguage m entry language = m language"
  by (cases entry) (simp add: mergeLanguage_def Let_def)


lemma foldl_mergeLanguage_other:
  "language \<notin> fst ` set entries \<Longrightarrow> foldl mergeLanguage m entries language = m language"
  by (induction entries arbitrary: m) (auto simp: mergeLanguage_other)








subsection \<open>What is left unchanged\<close>

lemma getConfiguration_updateCalls [simp]:
  "getConfiguration (st\<lparr>updateCalls := c\<rparr>) n = getConfiguration st n"
  by (simp add: getConfiguration_def storedValue_def)

lemma getConfiguration_logged [simp]:
  "getConfiguration (st\<lparr>updateCalls := c, logged := l\<rparr>) n = getConfiguration st n"
  by (simp add: getConfiguration_def storedValue_def)

lemma getConfiguration_loggedOnly [simp]:
  "getConfiguration (st\<lparr>logged := l\<rparr>) n = getConfiguration st n"
  by (simp add: getConfiguration_def storedValue_def)

lemma getConfiguration_write:
  assumes "v language = getConfiguration st name language"
  shows "getConfiguration
           (st\<lparr>updateCalls := c,
               settings := (settings st)(scope := (settings st scope)(name \<mapsto> v))\<rparr>)
           n language =
         getConfiguration st n language"
proof (cases "n = name")
  case False
  then show ?thesis by (simp add: getConfiguration_def storedValue_def)
next
  case True
  from assms show ?thesis unfolding True
    by (cases scope)
       (auto simp: getConfiguration_def storedValue_def map_add_def split: option.splits)
qed

lemma updateLoop_effective:
  "v language = getConfiguration st name language \<Longrightarrow>
   getConfiguration (updateLoop env name v scopes st) n language = getConfiguration st n language"
proof (induction scopes arbitrary: st)
  case Nil
  then show ?case by simp
next
  case (Cons scope rest)
  show ?case
  proof (cases "updateRejection env name scope")
    case None
    with Cons.prems show ?thesis by (simp add: getConfiguration_write)
  next
    case (Some e)
    let ?st1 = "if rest = []
             then st\<lparr>updateCalls := updateCalls st @ [(name, v, scope)],
                     logged := logged st @ [CouldNotSetConfiguration name e]\<rparr>
             else st\<lparr>updateCalls := updateCalls st @ [(name, v, scope)]\<rparr>"
    have g: "getConfiguration ?st1 m = getConfiguration st m" for m by simp
    from Cons.prems have "v language = getConfiguration ?st1 name language" by (simp only: g)
    from Cons.IH [OF this] have
      "getConfiguration (updateLoop env name v rest ?st1) n language = getConfiguration st n language"
      by (simp only: g)
    with Some show ?thesis by simp
  qed
qed

lemma getConfiguration_store:
  assumes "v language = getConfiguration st name language"
  shows "getConfiguration
           (st\<lparr>settings := (settings st)(scope := (settings st scope)(name \<mapsto> v))\<rparr>)
           n language =
         getConfiguration st n language"
proof (cases "n = name")
  case False
  then show ?thesis by (simp add: getConfiguration_def storedValue_def)
next
  case True
  from assms show ?thesis unfolding True
    by (cases scope)
       (auto simp: getConfiguration_def storedValue_def map_add_def split: option.splits)
qed

lemma settleUpdates_effective:
  "\<forall>p\<in>set queue. fst p language = getConfiguration st0 name language \<Longrightarrow>
   \<forall>m. getConfiguration st m language = getConfiguration st0 m language \<Longrightarrow>
   getConfiguration (settleUpdates env name queue st) n language =
     getConfiguration st0 n language"
proof (induction env name queue st rule: settleUpdates.induct)
  case (1 env name st)
  then show ?case by simp
next
  case (2 env name v scope rest queue st)
  from "2.prems"(1) have v: "v language = getConfiguration st0 name language"
    and q: "\<forall>p\<in>set queue. fst p language = getConfiguration st0 name language"
    by simp_all
  show ?case
  proof (cases "updateRejection env name scope")
    case None
    let ?st1 = "st\<lparr>settings := (settings st)(scope := (settings st scope)(name \<mapsto> v))\<rparr>"
    from v "2.prems"(2) have "v language = getConfiguration st name language" by simp
    then have "\<forall>m. getConfiguration ?st1 m language = getConfiguration st m language"
      by (simp add: getConfiguration_store)
    with "2.prems"(2) have "\<forall>m. getConfiguration ?st1 m language = getConfiguration st0 m language"
      by simp
    from "2.IH"(1) [OF None q this] None show ?thesis by simp
  next
    case (Some e)
    show ?thesis
    proof (cases rest)
      case Nil
      from "2.prems"(2)
      have "\<forall>m. getConfiguration (st\<lparr>logged := logged st @ [CouldNotSetConfiguration name e]\<rparr>)
               m language = getConfiguration st0 m language"
        by simp
      from "2.IH"(2) [OF Some Nil q this] Some Nil show ?thesis by simp
    next
      case (Cons following rest')
      from v q have q': "\<forall>p\<in>set (queue @ [(v, following, rest')]).
          fst p language = getConfiguration st0 name language"
        by simp
      from "2.prems"(2)
      have "\<forall>m. getConfiguration (st\<lparr>updateCalls := updateCalls st @ [(name, v, following)]\<rparr>)
               m language = getConfiguration st0 m language"
        by simp
      from "2.IH"(3) [OF Some Cons q' this] Some Cons show ?thesis by simp
    qed
  qed
qed

lemma mergedSettingValue_other:
  "language \<notin> fst ` set entries \<Longrightarrow>
   mergedSettingValue st name entries language = getConfiguration st name language"
  unfolding mergedSettingValue_def by (rule foldl_mergeLanguage_other)

lemma internal_effective:
  assumes "language \<notin> fst ` set entries"
  shows "getConfiguration (addToLanguageSpecificSettingInternalSetting env u name scopes entries st)
           n language = getConfiguration st n language"
  unfolding addToLanguageSpecificSettingInternalSetting_def
  by (rule updateLoop_effective) (rule mergedSettingValue_other [OF assms])

lemma inFlight_other:
  assumes "language \<notin> fst ` set entries"
  shows "\<forall>p\<in>set (snd (externalFileLoop env u name scopes entries st)).
           fst p language = getConfiguration st name language"
  using assms
proof (induction entries arbitrary: st)
  case Nil
  show ?case by simp
next
  case (Cons entry rest)
  obtain l vals where entry: "entry = (l, vals)" by (cases entry)
  from Cons.prems entry have l: "language \<notin> fst ` set [(l, vals)]"
    and r: "language \<notin> fst ` set rest" by auto
  show ?case
  proof (cases "firstExternalFile env u name scopes l")
    case (Some path)
    have "getConfiguration (appendToFile path name vals st) name = getConfiguration st name"
      by (rule getConfiguration_cong) (simp add: appendToFile_fields)
    with Cons.IH [OF r, of "appendToFile path name vals st"] Some show ?thesis
      by (simp add: entry)
  next
    case None
    let ?start = "startInternalSetting name scopes [(l, vals)] st"
    have g: "getConfiguration (fst ?start) name = getConfiguration st name"
      by (rule getConfiguration_cong) (simp add: startInternalSetting_fields)
    have a: "\<forall>p\<in>set (snd ?start). fst p language = getConfiguration st name language"
    proof
      fix p assume "p \<in> set (snd ?start)"
      then have "fst p = mergedSettingValue st name [(l, vals)]"
        by (rule startInternalSetting_value)
      with mergedSettingValue_other [OF l] show "fst p language = getConfiguration st name language"
        by simp
    qed
    from Cons.IH [OF r, of "fst ?start"] g
    have b: "\<forall>p\<in>set (snd (externalFileLoop env u name scopes rest (fst ?start))).
               fst p language = getConfiguration st name language"
      by simp
    from a b None show ?thesis
      by (auto simp: entry case_prod_beta Let_def)
  qed
qed

lemma external_effective:
  assumes "language \<notin> fst ` set entries"
  shows "getConfiguration (addToLanguageSpecificSettingExternalFile env u name scopes entries st)
           n language = getConfiguration st n language"
proof -
  let ?loop = "externalFileLoop env u name scopes entries st"
  have s: "settings (fst ?loop) = settings st"
    using externalFileLoop_unchanged [of env u name scopes entries st] by blast
  have "\<forall>m. getConfiguration (fst ?loop) m language = getConfiguration st m language"
    using getConfiguration_cong [OF s] by simp
  from settleUpdates_effective [OF inFlight_other [OF assms] this]
  show ?thesis
    by (simp add: addToLanguageSpecificSettingExternalFile_def case_prod_beta)
qed

lemma addEntries_effective:
  assumes "language \<notin> fst ` set entries"
  shows "getConfiguration (addToLanguageSpecificSetting env u name entries st) n language =
         getConfiguration st n language"
  unfolding addToLanguageSpecificSetting_cases
  by (simp add: internal_effective [OF assms] external_effective [OF assms] split: sum.splits)

text \<open>
  Claim C7, as amended. A call of \<open>addToLanguageSpecificSetting\<close> leaves the effective value
  of every setting unchanged at every language that is not a key of the incoming entries.
  A call with no entries leaves every effective value and every file unchanged and makes
  no append; in external file mode it changes nothing at all.
\<close>

theorem addEntries_frame:
  fixes env :: editor and u :: uri and name :: string and entries :: languageEntries
    and st :: store
  defines "st' \<equiv> addToLanguageSpecificSetting env u name entries st"
  shows
    "(language \<notin> fst ` set entries \<longrightarrow>
        getConfiguration st' n language = getConfiguration st n language) \<and>
     (entries = [] \<longrightarrow>
        getConfiguration st' n = getConfiguration st n \<and>
        files st' = files st \<and> appendCalls st' = appendCalls st) \<and>
     (entries = [] \<and> usesExternalFile (resolveScopeString env u name) \<and>
      resolveScopes (resolveScopeString env u name) = Inr scopes \<longrightarrow> st' = st)"
proof -
  have a: "language \<notin> fst ` set entries \<longrightarrow>
        getConfiguration st' n language = getConfiguration st n language"
    unfolding st'_def using addEntries_effective by blast
  have b: "entries = [] \<longrightarrow>
        getConfiguration st' n = getConfiguration st n \<and>
        files st' = files st \<and> appendCalls st' = appendCalls st"
  proof
    assume e: "entries = []"
    have "getConfiguration st' n l = getConfiguration st n l" for l
      unfolding st'_def by (rule addEntries_effective) (simp add: e)
    then have g: "getConfiguration st' n = getConfiguration st n" by (rule ext)
    have f: "files st' = files st \<and> appendCalls st' = appendCalls st"
      unfolding st'_def addToLanguageSpecificSetting_cases e
      by (simp add: addToLanguageSpecificSettingExternalFile_def
          addToLanguageSpecificSettingInternalSetting_def updateLoop_frame split: sum.splits)
    from g f show "getConfiguration st' n = getConfiguration st n \<and>
        files st' = files st \<and> appendCalls st' = appendCalls st" by simp
  qed
  have c: "entries = [] \<and> usesExternalFile (resolveScopeString env u name) \<and>
      resolveScopes (resolveScopeString env u name) = Inr scopes \<longrightarrow> st' = st"
    unfolding st'_def addToLanguageSpecificSetting_cases
    by (simp add: addToLanguageSpecificSettingExternalFile_def)
  from a b c show ?thesis by (intro conjI)
qed

theorem addEntries_frame_witness:
  "''de-DE'' \<notin> fst ` set [(''en-US'', [''bar''])] \<and>
   getConfiguration
     (addToLanguageSpecificSetting (scopeEditor [(''dictionary'', ''workspace'')]) exampleDocument
        ''dictionary'' [(''en-US'', [''bar''])] globalDictionary) ''dictionary'' ''de-DE'' =
   getConfiguration globalDictionary ''dictionary'' ''de-DE'' \<and>
   addToLanguageSpecificSetting (scopeEditor []) exampleDocument ''dictionary'' [] globalDictionary =
     globalDictionary"
proof -
  have h: "''de-DE'' \<notin> fst ` set [(''en-US'', [''bar''])]" by simp
  from addEntries_frame [of "''de-DE''" "[(''en-US'', [''bar''])]"
      "scopeEditor [(''dictionary'', ''workspace'')]" exampleDocument "''dictionary''"
      globalDictionary "''dictionary''"] h
  have a: "getConfiguration
     (addToLanguageSpecificSetting (scopeEditor [(''dictionary'', ''workspace'')]) exampleDocument
        ''dictionary'' [(''en-US'', [''bar''])] globalDictionary) ''dictionary'' ''de-DE'' =
     getConfiguration globalDictionary ''dictionary'' ''de-DE''"
    by blast
  have e: "usesExternalFile (resolveScopeString (scopeEditor []) exampleDocument ''dictionary'') \<and>
     resolveScopes (resolveScopeString (scopeEditor []) exampleDocument ''dictionary'') =
       Inr [WorkspaceFolder, Workspace, Global]"
    by (simp add: resolveScopeString_def resolveScopes_def usesExternalFile_def editor_defs)
  from addEntries_frame [of _ "[]" "scopeEditor []" exampleDocument "''dictionary''"
      globalDictionary _ "[WorkspaceFolder, Workspace, Global]"] e
  have b: "addToLanguageSpecificSetting (scopeEditor []) exampleDocument ''dictionary'' []
      globalDictionary = globalDictionary"
    by blast
  from h a b show ?thesis by (intro conjI)
qed

text \<open>
  The claim C7 as stated fails in inline mode: a call with no entries still updates the
  setting at the first target that accepts, with the effective value. Here the dictionary
  is stored at the global target only; after the call it is stored at the workspace target
  as well.
\<close>

theorem addEntries_frame_counterexample:
  "settings globalDictionary Workspace ''dictionary'' = None \<and>
   storedValue
     (addToLanguageSpecificSetting (scopeEditor [(''dictionary'', ''workspace'')]) exampleDocument
        ''dictionary'' [] globalDictionary)
     Workspace ''dictionary'' ''en-US'' = Some [''foo''] \<and>
   settings
     (addToLanguageSpecificSetting (scopeEditor [(''dictionary'', ''workspace'')]) exampleDocument
        ''dictionary'' [] globalDictionary)
     Workspace ''dictionary'' \<noteq> settings globalDictionary Workspace ''dictionary'' \<and>
   length (updateCalls
     (addToLanguageSpecificSetting (scopeEditor [(''dictionary'', ''workspace'')]) exampleDocument
        ''dictionary'' [] globalDictionary)) = 1"
  by (simp add: addEntries_defs editor_defs editor2_defs)

end
